theory Spec2Isabelle
  imports Complex_Main
begin

section \<open>Vectors\<close>

text \<open>
  The simulation computes with two-element numpy arrays of float64. They are modelled as
  pairs of real numbers with exact arithmetic: a result that the program obtains "within
  floating tolerance" is an equation here. Where numpy would divide by zero (and produce
  nan or inf) the model returns an error value instead, because no real number stands for
  the outcome.
\<close>

type_synonym vec = "real \<times> real"

definition vadd :: "vec \<Rightarrow> vec \<Rightarrow> vec" where
  "vadd a b = (fst a + fst b, snd a + snd b)"

definition vsub :: "vec \<Rightarrow> vec \<Rightarrow> vec" where
  "vsub a b = (fst a - fst b, snd a - snd b)"

definition vneg :: "vec \<Rightarrow> vec" where
  "vneg a = (- fst a, - snd a)"

definition vmul :: "vec \<Rightarrow> real \<Rightarrow> vec" where
  "vmul a k = (fst a * k, snd a * k)"

definition vdiv :: "vec \<Rightarrow> real \<Rightarrow> vec" where
  "vdiv a k = (fst a / k, snd a / k)"

text \<open>\<open>array + scalar\<close> adds the scalar to both coordinates.\<close>

definition vadd_scalar :: "vec \<Rightarrow> real \<Rightarrow> vec" where
  "vadd_scalar a k = (fst a + k, snd a + k)"

definition dot :: "vec \<Rightarrow> vec \<Rightarrow> real" where
  "dot a b = fst a * fst b + snd a * snd b"

text \<open>\<open>np.linalg.norm\<close> of a two-element vector.\<close>

definition linalg_norm :: "vec \<Rightarrow> real" where
  "linalg_norm a = sqrt ((fst a)\<^sup>2 + (snd a)\<^sup>2)"

type_synonym mat = "vec \<times> vec"

text \<open>\<open>matrix.dot(v)\<close> for a 2x2 matrix given by its rows.\<close>

definition mat_dot :: "mat \<Rightarrow> vec \<Rightarrow> vec" where
  "mat_dot m v = (dot (fst m) v, dot (snd m) v)"

section \<open>Errors\<close>

datatype error =
    SelfPrey                \<comment> \<open>ValueError: Animals shouldn't want to eat themselves!\<close>
  | NeitherPreyNorHunter    \<comment> \<open>ValueError of the \<open>subject_animal\<close> setter\<close>
  | OnTopOfEachOther        \<comment> \<open>ValueError of \<open>normalized_vector_to\<close>\<close>
  | ZeroCenterToCenter      \<comment> \<open>ValueError of \<open>collide\<close>\<close>
  | SingularMatrix          \<comment> \<open>LinAlgError of \<open>np.linalg.inv\<close>\<close>
  | DivisionByZero          \<comment> \<open>a division by zero: nan, inf or an exception in the program\<close>

text \<open>\<open>np.linalg.inv\<close> of a 2x2 matrix; a singular matrix raises.\<close>

definition linalg_inv :: "mat \<Rightarrow> error + mat" where
  "linalg_inv m =
     (let a = fst (fst m); b = snd (fst m); c = fst (snd m); d = snd (snd m);
          det = a * d - b * c
      in if det = 0 then Inl SingularMatrix
         else Inr ((d / det, - b / det), (- c / det, a / det)))"

section \<open>Entities\<close>

text \<open>
  Animals are Python objects compared by identity and referring to each other (the prey
  set, the subject animal). An animal is modelled by a natural number, its reference, and
  the objects live in a store that maps every reference to the object's fields. Methods
  take the store and the reference \<open>self\<close> and return the updated store. Only the fields
  that the simulation reads are kept; surfaces, fonts and sounds are left out.
\<close>

record HealthBar =
  max_health :: real
  current_health :: real

record AnimalImage =
  health_bar :: HealthBar
  num_death_frames :: nat
  death_frames_executed :: nat

record Animal =
  eats :: "nat set"
  animal_image :: AnimalImage
  position :: vec                       \<comment> \<open>\<open>rect.center\<close>\<close>
  width :: real                         \<comment> \<open>\<open>rect.width\<close>\<close>
  height :: real                        \<comment> \<open>\<open>rect.height\<close>\<close>
  radius :: real
  velocity :: vec                       \<comment> \<open>\<open>_velocity\<close>\<close>
  max_speed :: real
  damage_infliction_magnitude :: real
  mass :: real
  propulsion_force_magnitude :: real
  slow_down_force_magnitude :: real
  propulsion_force :: vec
  slow_down_force :: vec
  subject_animal :: "nat option"        \<comment> \<open>\<open>_subject_animal\<close>\<close>

type_synonym store = "nat \<Rightarrow> Animal"

subsection \<open>Health\<close>

definition HealthBar_is_dead :: "HealthBar \<Rightarrow> bool" where
  "HealthBar_is_dead hb = (current_health hb \<le> 0)"

text \<open>\<open>HealthBar.reduce_health\<close>: \<open>self.current_health -= amount\<close>, then the bar is redrawn.\<close>

definition HealthBar_reduce_health :: "HealthBar \<Rightarrow> real \<Rightarrow> HealthBar" where
  "HealthBar_reduce_health hb amount = hb\<lparr>current_health := current_health hb - amount\<rparr>"

definition is_dead :: "Animal \<Rightarrow> bool" where
  "is_dead a = HealthBar_is_dead (health_bar (animal_image a))"

definition health :: "Animal \<Rightarrow> real" where
  "health a = current_health (health_bar (animal_image a))"

definition reduce_health :: "Animal \<Rightarrow> real \<Rightarrow> Animal" where
  "reduce_health a amount =
     a\<lparr>animal_image := (animal_image a)
          \<lparr>health_bar := HealthBar_reduce_health (health_bar (animal_image a)) amount\<rparr>\<rparr>"

text \<open>A sequence of damage applications, one after the other.\<close>

fun reduce_health_all :: "Animal \<Rightarrow> real list \<Rightarrow> Animal" where
  "reduce_health_all a [] = a"
| "reduce_health_all a (amount # amounts) = reduce_health_all (reduce_health a amount) amounts"

subsection \<open>The prey relation\<close>

text \<open>
  \<open>also_likes_to_eat(*animals)\<close> adds the animals one by one and raises at the first that
  is \<open>self\<close>. The exception leaves the set as the loop had it, so the model returns the
  error, if any, together with the store reached.
\<close>

fun also_likes_to_eat :: "store \<Rightarrow> nat \<Rightarrow> nat list \<Rightarrow> error option \<times> store" where
  "also_likes_to_eat st self [] = (None, st)"
| "also_likes_to_eat st self (animal # animals) =
     (if animal = self then (Some SelfPrey, st)
      else also_likes_to_eat
             (st(self := (st self)\<lparr>eats := insert animal (eats (st self))\<rparr>)) self animals)"

definition wants_to_eat :: "Animal \<Rightarrow> nat \<Rightarrow> bool" where
  "wants_to_eat a animal = (animal \<in> eats a)"

subsection \<open>Kinematics\<close>

definition speed :: "Animal \<Rightarrow> real" where
  "speed a = linalg_norm (velocity a)"

text \<open>
  The \<open>velocity\<close> setter looks at the speed before the assignment. In the branch that
  divides by the speed, a speed of zero (possible only below a negative \<open>max_speed\<close>) has
  no quotient: the program raises on the initial list \<open>[0, 0]\<close> and stores nan on an array.
\<close>

definition velocity_set :: "Animal \<Rightarrow> vec \<Rightarrow> error + Animal" where
  "velocity_set a v =
     (if speed a > max_speed a then
        (if speed a = 0 then Inl DivisionByZero
         else Inr (a\<lparr>slow_down_force :=
                        vmul (vdiv (vneg (velocity a)) (speed a)) (slow_down_force_magnitude a),
                      velocity := v\<rparr>))
      else Inr (a\<lparr>slow_down_force := (0, 0), velocity := v\<rparr>))"

definition position_set :: "Animal \<Rightarrow> vec \<Rightarrow> Animal" where
  "position_set a value = a\<lparr>position := value\<rparr>"

definition vector_to :: "Animal \<Rightarrow> Animal \<Rightarrow> vec" where
  "vector_to a animal = vsub (position animal) (position a)"

definition distance_to :: "Animal \<Rightarrow> Animal \<Rightarrow> real" where
  "distance_to a animal = linalg_norm (vector_to a animal)"

definition normalized_vector_to :: "Animal \<Rightarrow> Animal \<Rightarrow> error + vec" where
  "normalized_vector_to a animal =
     (let vector = vector_to a animal; distance = distance_to a animal
      in if distance = 0 then Inl OnTopOfEachOther else Inr (vdiv vector distance))"

definition on_top :: "Animal \<Rightarrow> Animal \<Rightarrow> bool" where
  "on_top a animal = (position a = position animal)"

subsection \<open>Targeting\<close>

text \<open>
  The \<open>subject_animal\<close> setter stores the reference and recomputes the propulsion force.
  It reads the other animal's position and prey set, so it works on the store. When it
  raises, the model returns the error alone.
\<close>

definition propulsion_force_set :: "store \<Rightarrow> nat \<Rightarrow> vec \<Rightarrow> store" where
  "propulsion_force_set st self f = st(self := (st self)\<lparr>propulsion_force := f\<rparr>)"

definition subject_animal_set :: "store \<Rightarrow> nat \<Rightarrow> nat option \<Rightarrow> error + store" where
  "subject_animal_set st self animal =
     (let st1 = st(self := (st self)\<lparr>subject_animal := animal\<rparr>)
      in case animal of
           None \<Rightarrow> Inr (propulsion_force_set st1 self (0, 0))
         | Some x \<Rightarrow>
             if on_top (st1 self) (st1 x) then Inr (propulsion_force_set st1 self (0, 0))
             else if wants_to_eat (st1 self) x then
               (case normalized_vector_to (st1 self) (st1 x) of
                  Inl e \<Rightarrow> Inl e
                | Inr d \<Rightarrow> Inr (propulsion_force_set st1 self
                                  (vmul d (propulsion_force_magnitude (st1 self)))))
             else if wants_to_eat (st1 x) self then
               (case normalized_vector_to (st1 self) (st1 x) of
                  Inl e \<Rightarrow> Inl e
                | Inr d \<Rightarrow> Inr (propulsion_force_set st1 self
                                  (vmul (vneg d) (propulsion_force_magnitude (st1 self)))))
             else Inl NeitherPreyNorHunter)"

text \<open>
  \<open>update_subject_animal(animal_group)\<close>. The prey set is a Python set of objects hashed
  by identity, and \<open>list(self.eats)\<close> lists it in the order of its hash table, which the
  program does not control. That list is the argument \<open>animals\<close>: any enumeration of the
  pruned set without repetition, see \<open>set_iteration\<close>. \<open>list.sort\<close> is stable, as is
  \<^const>\<open>sort_key\<close>; the loop takes the first element, if there is one.
\<close>

definition set_iteration :: "nat set \<Rightarrow> nat list \<Rightarrow> bool" where
  "set_iteration S xs = (set xs = S \<and> distinct xs)"

definition update_subject_animal :: "store \<Rightarrow> nat \<Rightarrow> nat list \<Rightarrow> nat list \<Rightarrow> error + store" where
  "update_subject_animal st self animal_group animals =
     (let st1 = st(self := (st self)\<lparr>eats := eats (st self) \<inter> set animal_group\<rparr>)
      in case subject_animal_set st1 self None of
           Inl e \<Rightarrow> Inl e
         | Inr st2 \<Rightarrow>
             if is_dead (st2 self) then Inr st2
             else (case sort_key (\<lambda>x. distance_to (st2 self) (st2 x)) animals of
                     [] \<Rightarrow> Inr st2
                   | animal # _ \<Rightarrow> subject_animal_set st2 self (Some animal)))"

section \<open>Collision detection\<close>

record Collision =
  animal1 :: nat
  animal2 :: nat

text \<open>
  A pygame \<open>Group\<close> holds each sprite once and iterates in insertion order: a list without
  repetition. \<open>Group.remove\<close> ignores sprites that are not members, \<open>Group.add\<close> those that
  already are. \<open>collide_circle\<close> is pygame's test on two sprites and is a parameter.
\<close>

definition group_remove :: "nat list \<Rightarrow> nat list \<Rightarrow> nat list" where
  "group_remove animal_group sprites = filter (\<lambda>x. x \<notin> set sprites) animal_group"

definition group_add :: "nat list \<Rightarrow> nat \<Rightarrow> nat list" where
  "group_add animal_group sprite =
     (if sprite \<in> set animal_group then animal_group else animal_group @ [sprite])"

fun find_collision :: "(nat \<Rightarrow> nat \<Rightarrow> bool) \<Rightarrow> nat \<Rightarrow> nat list \<Rightarrow> Collision option" where
  "find_collision collide_circle animal [] = None"
| "find_collision collide_circle animal (other_animal # animal_group) =
     (if collide_circle animal other_animal
      then Some \<lparr>animal1 = animal, animal2 = other_animal\<rparr>
      else find_collision collide_circle animal animal_group)"

function find_collisions_loop ::
  "(nat \<Rightarrow> nat \<Rightarrow> bool) \<Rightarrow> nat list \<Rightarrow> Collision list \<Rightarrow> Collision list" where
  "find_collisions_loop collide_circle [] collisions = collisions"
| "find_collisions_loop collide_circle (animal # animal_group) collisions =
     (case find_collision collide_circle animal animal_group of
        None \<Rightarrow> find_collisions_loop collide_circle animal_group collisions
      | Some collision \<Rightarrow>
          find_collisions_loop collide_circle
            (group_remove animal_group [animal1 collision, animal2 collision])
            (collisions @ [collision]))"
  by pat_completeness auto
termination
  by (relation "measure (\<lambda>(c, g, cs). length g)")
     (auto simp: group_remove_def less_Suc_eq_le)

definition find_collisions :: "(nat \<Rightarrow> nat \<Rightarrow> bool) \<Rightarrow> nat list \<Rightarrow> Collision list" where
  "find_collisions collide_circle animal_group =
     find_collisions_loop collide_circle animal_group []"

text \<open>The entities of a list of collisions, in order, both members of each pair.\<close>

definition collision_animals :: "Collision list \<Rightarrow> nat list" where
  "collision_animals cs = concat (map (\<lambda>c. [animal1 c, animal2 c]) cs)"

definition inflict_damage :: "store \<Rightarrow> nat \<Rightarrow> nat \<Rightarrow> store" where
  "inflict_damage st self animal =
     st(animal := reduce_health (st animal) (damage_infliction_magnitude (st self)))"

definition injure_animals_if_prey :: "store \<Rightarrow> Collision \<Rightarrow> store" where
  "injure_animals_if_prey st c =
     (let st1 = (if wants_to_eat (st (animal1 c)) (animal2 c)
                 then inflict_damage st (animal1 c) (animal2 c) else st)
      in if wants_to_eat (st1 (animal2 c)) (animal1 c)
         then inflict_damage st1 (animal2 c) (animal1 c) else st1)"

section \<open>Collision resolution\<close>

text \<open>
  \<open>collide(center_to_center, v1, v2, m1, m2)\<close>. The angle is \<open>arccos\<close> of the normalised
  x-coordinate, the rotation matrix is built from its cosine and sine, and the inverse is
  computed by \<open>np.linalg.inv\<close>. The division by \<open>m1 + m2\<close> has no result when the sum is 0.
\<close>

definition collide :: "vec \<Rightarrow> vec \<Rightarrow> vec \<Rightarrow> real \<Rightarrow> real \<Rightarrow> error + (vec \<times> vec)" where
  "collide center_to_center v1 v2 m1 m2 =
     (if linalg_norm center_to_center = 0 then Inl ZeroCenterToCenter
      else
        let phi = arccos (fst center_to_center / linalg_norm center_to_center);
            rotation_matrix = ((cos phi, sin phi), (- sin phi, cos phi));
            v1r = mat_dot rotation_matrix v1;
            v2r = mat_dot rotation_matrix v2
        in if m1 + m2 = 0 then Inl DivisionByZero
           else
             let u1x = ((m1 - m2) * fst v1r + (m2 + m2) * fst v2r) / (m1 + m2);
                 u2x = ((m1 + m1) * fst v1r + (m2 - m1) * fst v2r) / (m1 + m2);
                 u1 = (u1x, snd v1r);
                 u2 = (u2x, snd v2r)
             in case linalg_inv rotation_matrix of
                  Inl e \<Rightarrow> Inl e
                | Inr rotation_matrix_inverse \<Rightarrow>
                    Inr (mat_dot rotation_matrix_inverse u1, mat_dot rotation_matrix_inverse u2))"

definition snap_to_grid_in_direction :: "vec \<Rightarrow> vec \<Rightarrow> vec" where
  "snap_to_grid_in_direction p1 direction =
     (if fst direction > 0 then of_int \<lceil>fst p1\<rceil> else of_int \<lfloor>fst p1\<rfloor>,
      if snd direction > 0 then of_int \<lceil>snd p1\<rceil> else of_int \<lfloor>snd p1\<rfloor>)"

text \<open>
  \<open>collide_animals(animal, other_animal)\<close>: nothing happens at distance zero; overlapping
  circles are pushed apart first; then both velocities are assigned through the setter,
  the first animal's first.
\<close>

definition collide_animals :: "store \<Rightarrow> nat \<Rightarrow> nat \<Rightarrow> error + store" where
  "collide_animals st animal other_animal =
     (let distance = distance_to (st animal) (st other_animal)
      in if distance = 0 then Inr st
         else case normalized_vector_to (st animal) (st other_animal) of
           Inl e \<Rightarrow> Inl e
         | Inr center_to_center \<Rightarrow>
             let st2 =
                   (if distance < radius (st animal) + radius (st other_animal) then
                      let too_close_by =
                            of_int \<lceil>radius (st animal) + radius (st other_animal) - distance\<rceil>;
                          p1 = vsub (position (st animal))
                                 (vdiv (vmul center_to_center too_close_by) 2);
                          p2 = vadd (position (st other_animal))
                                 (vdiv (vmul center_to_center too_close_by) 2);
                          st1 = st(animal := position_set (st animal)
                                   (snap_to_grid_in_direction p1 (vneg center_to_center)))
                      in st1(other_animal := position_set (st1 other_animal)
                               (snap_to_grid_in_direction p2 center_to_center))
                    else st)
             in (case collide center_to_center (velocity (st2 animal))
                        (velocity (st2 other_animal)) (mass (st2 animal)) (mass (st2 other_animal)) of
                   Inl e \<Rightarrow> Inl e
                 | Inr (u1, u2) \<Rightarrow>
                     (case velocity_set (st2 animal) u1 of
                        Inl e \<Rightarrow> Inl e
                      | Inr a \<Rightarrow>
                          let st3 = st2(animal := a)
                          in (case velocity_set (st3 other_animal) u2 of
                                Inl e \<Rightarrow> Inl e
                              | Inr b \<Rightarrow> Inr (st3(other_animal := b))))))"

subsection \<open>Walls\<close>

record Wall =
  normal :: vec
  implicit_line_equation :: "vec \<Rightarrow> real"

text \<open>
  \<open>Wall.__init__\<close> normalises the normal it is given. Walls are only built by \<open>GameBoard\<close>,
  from the four normals below, none of which is zero.
\<close>

definition Wall_init :: "vec \<Rightarrow> (vec \<Rightarrow> real) \<Rightarrow> Wall" where
  "Wall_init n eq = \<lparr>normal = vdiv n (linalg_norm n), implicit_line_equation = eq\<rparr>"

definition Wall_distance_to :: "Wall \<Rightarrow> Animal \<Rightarrow> real" where
  "Wall_distance_to w a = implicit_line_equation w (vadd_scalar (position a) (radius a))"

datatype wall_name = Top | Left | Bottom | Right

text \<open>The four walls of \<open>GameBoard\<close>, for a screen of the given width and height.\<close>

fun GameBoard_walls :: "real \<Rightarrow> real \<Rightarrow> wall_name \<Rightarrow> Wall" where
  "GameBoard_walls screen_width screen_height Top =
     Wall_init (0, 1) (\<lambda>pos. snd pos - 35)"
| "GameBoard_walls screen_width screen_height Left =
     Wall_init (1, 0) (\<lambda>pos. fst pos - 30)"
| "GameBoard_walls screen_width screen_height Bottom =
     Wall_init (0, -1) (\<lambda>pos. screen_height - snd pos - 4)"
| "GameBoard_walls screen_width screen_height Right =
     Wall_init (-1, 0) (\<lambda>pos. screen_width - fst pos - 30)"

text \<open>
  \<open>collide_animal_into_wall(animal, wall)\<close>: an animal beyond the wall is moved back
  first; the wall has velocity zero and mass \<open>10 ** 15\<close>, the animal counts with mass 1.
\<close>

definition collide_animal_into_wall :: "Animal \<Rightarrow> Wall \<Rightarrow> error + Animal" where
  "collide_animal_into_wall animal wall =
     (let distance = Wall_distance_to wall animal;
          animal' =
            (if distance < 0 then
               position_set animal
                 (snap_to_grid_in_direction
                    (vadd (position animal) (vmul (normal wall) (of_int \<lceil>\<bar>distance\<bar>\<rceil>)))
                    (normal wall))
             else animal)
      in case collide (normal wall) (velocity animal') (0, 0) 1 (10 ^ 15) of
           Inl e \<Rightarrow> Inl e
         | Inr (u1, u2) \<Rightarrow> velocity_set animal' u1)"

section \<open>Engine\<close>

text \<open>
  The engine owns the two groups and the two sound flags; \<open>heap\<close> is the store of the
  animals. \<open>nan_velocity\<close> holds the animals of the dying group whose velocity array is
  nan, which no real vector can stand for: for these the \<open>velocity\<close> field of the store is
  not their velocity. Only the pass that moves dead animals to the dying group puts an
  animal there; the live animals have real velocities.
\<close>

record Engine =
  heap :: store
  live_animals :: "nat list"
  dying_animals :: "nat list"
  play_death_sound :: bool
  play_collision_sound :: bool
  nan_velocity :: "nat set"

definition kill_animal :: "Engine \<Rightarrow> nat \<Rightarrow> Engine" where
  "kill_animal e animal =
     e\<lparr>live_animals := group_remove (live_animals e) [animal],
       dying_animals := group_add (dying_animals e) animal\<rparr>"

definition delayed_death_sound :: "Engine \<Rightarrow> Engine" where
  "delayed_death_sound e = e\<lparr>play_death_sound := True\<rparr>"

text \<open>\<open>all_animals\<close>: a fresh group with the live animals added, then the dying ones.\<close>

definition all_animals :: "Engine \<Rightarrow> nat list" where
  "all_animals e = foldl group_add (foldl group_add [] (live_animals e)) (dying_animals e)"

text \<open>
  \<open>add_animals(*animals)\<close>: a dead animal joins the dying group, any other the live group.
\<close>

fun add_animals :: "Engine \<Rightarrow> nat list \<Rightarrow> Engine" where
  "add_animals e [] = e"
| "add_animals e (animal # animals) =
     add_animals
       (if is_dead (heap e animal)
        then e\<lparr>dying_animals := group_add (dying_animals e) animal\<rparr>
        else e\<lparr>live_animals := group_add (live_animals e) animal\<rparr>)
       animals"

text \<open>
  The velocity setter called with an array of nan: the brake force is set as for any
  argument, from the velocity before the assignment; the velocity stored is nan, which
  the caller records.
\<close>

definition velocity_set_nan :: "Animal \<Rightarrow> error + Animal" where
  "velocity_set_nan a =
     (if speed a > max_speed a then
        (if speed a = 0 then Inl DivisionByZero
         else Inr (a\<lparr>slow_down_force :=
                        vmul (vdiv (vneg (velocity a)) (speed a)) (slow_down_force_magnitude a)\<rparr>))
      else Inr (a\<lparr>slow_down_force := (0, 0)\<rparr>))"

text \<open>
  The loop of \<open>Engine.start\<close> over the live animals that moves the dead ones to the dying
  group. It runs over the sprites the group had when the loop began. The new velocity is
  \<open>velocity / speed * 200\<close>. At speed zero numpy divides zero by zero, warns and goes on:
  the velocity assigned is nan, and the animal is moved and the sound requested all the
  same. The pass stops only where the setter itself has no result.
\<close>

definition kill_if_dead :: "Engine \<Rightarrow> nat \<Rightarrow> error + Engine" where
  "kill_if_dead e animal =
     (if is_dead (heap e animal) then
        (case (if speed (heap e animal) = 0 then velocity_set_nan (heap e animal)
               else velocity_set (heap e animal)
                      (vmul (vdiv (velocity (heap e animal)) (speed (heap e animal))) 200)) of
           Inl err \<Rightarrow> Inl err
         | Inr a \<Rightarrow>
             Inr (delayed_death_sound (kill_animal
                    (e\<lparr>heap := (heap e)(animal := a),
                       nan_velocity :=
                         (if speed (heap e animal) = 0 then insert animal (nan_velocity e)
                          else nan_velocity e)\<rparr>)
                    animal)))
      else Inr e)"

fun kill_dead_animals :: "Engine \<Rightarrow> nat list \<Rightarrow> error + Engine" where
  "kill_dead_animals e [] = Inr e"
| "kill_dead_animals e (animal # animals) =
     (case kill_if_dead e animal of
        Inl err \<Rightarrow> Inl err
      | Inr e' \<Rightarrow> kill_dead_animals e' animals)"

definition start_kill_dead :: "Engine \<Rightarrow> error + Engine" where
  "start_kill_dead e = kill_dead_animals e (live_animals e)"

text \<open>\<open>simulation_completed(animals)\<close>: the loop returns at the first animal with a subject.\<close>

fun simulation_completed_loop :: "store \<Rightarrow> nat list \<Rightarrow> bool" where
  "simulation_completed_loop st [] = True"
| "simulation_completed_loop st (animal # animals) =
     (if subject_animal (st animal) \<noteq> None then False
      else simulation_completed_loop st animals)"

definition simulation_completed :: "store \<Rightarrow> nat list \<Rightarrow> bool" where
  "simulation_completed st animals =
     (if length animals = 0 then True else simulation_completed_loop st animals)"

text \<open>
  The loop of \<open>Engine.start\<close> over the collisions found: resolve the collision, injure,
  and ask for the collision sound if either animal wanted to eat the other.
\<close>

definition animals_were_injured :: "store \<Rightarrow> Collision \<Rightarrow> bool" where
  "animals_were_injured st c =
     (wants_to_eat (st (animal1 c)) (animal2 c) \<or> wants_to_eat (st (animal2 c)) (animal1 c))"

definition delayed_collision_sound :: "Engine \<Rightarrow> Engine" where
  "delayed_collision_sound e = e\<lparr>play_collision_sound := True\<rparr>"

fun handle_collisions :: "Engine \<Rightarrow> Collision list \<Rightarrow> error + Engine" where
  "handle_collisions e [] = Inr e"
| "handle_collisions e (collision # collisions) =
     (case collide_animals (heap e) (animal1 collision) (animal2 collision) of
        Inl err \<Rightarrow> Inl err
      | Inr st \<Rightarrow>
          let st' = injure_animals_if_prey st collision;
              e' = e\<lparr>heap := st'\<rparr>
          in handle_collisions
               (if animals_were_injured st' collision then delayed_collision_sound e' else e')
               collisions)"

section \<open>Construction and example entities\<close>

text \<open>
  \<open>Animal.__init__\<close>, with the size of the rendered shape as two parameters: full health,
  velocity zero, no forces, no subject; the radius is the smaller side of the rectangle
  and the rectangle sits at the origin. \<open>put(x, y)\<close> places the animal.
\<close>

definition Animal_init ::
  "nat set \<Rightarrow> real \<Rightarrow> real \<Rightarrow> real \<Rightarrow> real \<Rightarrow> real \<Rightarrow> real \<Rightarrow> real \<Rightarrow> Animal" where
  "Animal_init eats0 max_health0 max_speed0 mass0 exertion_magnitude
       damage_infliction_magnitude0 rect_width rect_height =
     \<lparr>eats = eats0,
      animal_image =
        \<lparr>health_bar = \<lparr>max_health = max_health0, current_health = max_health0\<rparr>,
         num_death_frames = 20, death_frames_executed = 0\<rparr>,
      position = (of_int \<lfloor>rect_width / 2\<rfloor>, of_int \<lfloor>rect_height / 2\<rfloor>),
      width = rect_width, height = rect_height,
      radius = min rect_width rect_height,
      velocity = (0, 0), max_speed = max_speed0,
      damage_infliction_magnitude = damage_infliction_magnitude0,
      mass = mass0,
      propulsion_force_magnitude = exertion_magnitude,
      slow_down_force_magnitude = exertion_magnitude,
      propulsion_force = (0, 0), slow_down_force = (0, 0),
      subject_animal = None\<rparr>"

definition put :: "Animal \<Rightarrow> real \<Rightarrow> real \<Rightarrow> Animal" where
  "put a x y = position_set a (x, y)"

text \<open>An animal with one point of health.\<close>

definition weak_animal :: Animal where
  "weak_animal = Animal_init {} 1 50 1 20 1 10 10"

text \<open>A store of default animals in a row, none of which eats anything yet.\<close>

definition three_animals :: store where
  "three_animals = (\<lambda>i. put (Animal_init {} 10 50 1 20 1 10 10) (real i * 100) 50)"

text \<open>An animal moving at speed 5 with a speed cap of 4.\<close>

definition fast_animal :: Animal where
  "fast_animal = (Animal_init {} 10 4 1 20 1 10 10)\<lparr>velocity := (3, 4)\<rparr>"

text \<open>A circle test under which any two sprites touch.\<close>

definition all_touching :: "nat \<Rightarrow> nat \<Rightarrow> bool" where
  "all_touching a b = True"

text \<open>
  Engines over \<open>three_animals\<close> with animal 2 dead and in the dying group: one where
  nothing has a subject, and one where animal 0 eats animal 1 and has it as its subject.
\<close>

definition idle_engine :: Engine where
  "idle_engine =
     \<lparr>heap = three_animals(2 := reduce_health (three_animals 2) 10),
      live_animals = [0, 1], dying_animals = [2],
      play_death_sound = False, play_collision_sound = False, nan_velocity = {}\<rparr>"

definition hunting_engine :: Engine where
  "hunting_engine =
     idle_engine\<lparr>heap := (heap idle_engine)
       (0 := (three_animals 0)\<lparr>eats := {1}, subject_animal := Some 1\<rparr>)\<rparr>"

text \<open>The subject an animal has in the store that a call returned.\<close>

definition subject_after :: "error + store \<Rightarrow> nat \<Rightarrow> error + nat option" where
  "subject_after r a = (case r of Inl e \<Rightarrow> Inl e | Inr st \<Rightarrow> Inr (subject_animal (st a)))"

text \<open>Animal 0 eats animals 1 and 2, which sit at the same distance on either side of it.\<close>

definition tie_store :: store where
  "tie_store =
     (\<lambda>i. put (Animal_init (if i = 0 then {1, 2} else {}) 10 50 1 20 1 10 10)
             (if i = 0 then 100 else if i = 1 then 0 else 200) 50)"

text \<open>Running one step of the engine after another, and reading a result.\<close>

definition and_then :: "error + Engine \<Rightarrow> (Engine \<Rightarrow> error + Engine) \<Rightarrow> error + Engine" where
  "and_then r f = (case r of Inl err \<Rightarrow> Inl err | Inr e \<Rightarrow> f e)"

definition velocity_after :: "error + Engine \<Rightarrow> nat \<Rightarrow> error + vec" where
  "velocity_after r a = (case r of Inl err \<Rightarrow> Inl err | Inr e \<Rightarrow> Inr (velocity (heap e a)))"

definition live_after :: "error + Engine \<Rightarrow> error + nat list" where
  "live_after r = (case r of Inl err \<Rightarrow> Inl err | Inr e \<Rightarrow> Inr (live_animals e))"

definition nan_velocity_after :: "error + Engine \<Rightarrow> error + nat set" where
  "nan_velocity_after r = (case r of Inl err \<Rightarrow> Inl err | Inr e \<Rightarrow> Inr (nan_velocity e))"

definition velocity_of :: "error + Animal \<Rightarrow> error + vec" where
  "velocity_of r = (case r of Inl err \<Rightarrow> Inl err | Inr a \<Rightarrow> Inr (velocity a))"

text \<open>
  A hunter at the origin moving right, and its heavier prey ten units to the right moving
  left, with one point of health; their circles touch.
\<close>

definition hunter :: Animal where
  "hunter = (put (Animal_init {2} 10 50 1 20 1 5 5) 0 0)\<lparr>velocity := (1, 0)\<rparr>"

definition prey :: Animal where
  "prey = (put (Animal_init {} 1 50 2 20 1 5 5) 10 0)\<lparr>velocity := (- 10, 0)\<rparr>"

definition chase_engine :: Engine where
  "chase_engine =
     \<lparr>heap = (\<lambda>i. if i = 0 then hunter else prey),
      live_animals = [0, 2], dying_animals = [],
      play_death_sound = False, play_collision_sound = False, nan_velocity = {}\<rparr>"

definition chase_collision :: Collision where
  "chase_collision = \<lparr>animal1 = 0, animal2 = 2\<rparr>"

text \<open>
  An engine with three live animals: animal 0 has no health left and moves at speed 5,
  animal 3 is healthy, and animal 2 has no health left and is at rest.
\<close>

definition runner_engine :: Engine where
  "runner_engine =
     \<lparr>heap = (\<lambda>i. if i = 0 then (Animal_init {} 0 50 1 20 1 5 5)\<lparr>velocity := (3, 4)\<rparr>
                  else if i = 2 then Animal_init {} 0 50 1 20 1 5 5
                  else weak_animal),
      live_animals = [0, 3, 2], dying_animals = [],
      play_death_sound = False, play_collision_sound = False, nan_velocity = {}\<rparr>"

text \<open>The animal of \<open>test_collide_animal_into_wall\<close>, heading for the top left corner.\<close>

definition diver :: Animal where
  "diver = (put (Animal_init {} 10 50 1 20 1 10 10) 300 20)\<lparr>velocity := (- 10, - 10)\<rparr>"

section \<open>Notions used in the statements\<close>

text \<open>
  A vector turned by a quarter, the components of a velocity along and across an axis,
  and the axis that \<open>collide\<close> turns the x-axis to: the angle is an \<open>arccos\<close>, so its sine
  is never negative.
\<close>

definition perp :: "vec \<Rightarrow> vec" where
  "perp e = (- snd e, fst e)"

definition axis_used :: "vec \<Rightarrow> vec" where
  "axis_used c = (fst c / linalg_norm c, \<bar>snd c\<bar> / linalg_norm c)"

definition component_across :: "vec \<Rightarrow> vec \<Rightarrow> real" where
  "component_across axis v = dot v (perp axis) / linalg_norm axis"

text \<open>The factor by which a body of mass 1 rebounds from a body of mass \<open>10 ** 15\<close> at rest.\<close>

definition wall_restitution :: real where
  "wall_restitution = (10 ^ 15 - 1) / (10 ^ 15 + 1)"

text \<open>
  The fields of an animal after the engine has moved it to the dying group. At speed zero
  the velocity is nan and the field is left as it was.
\<close>

definition killed :: "Animal \<Rightarrow> Animal" where
  "killed a =
     (if speed a = 0 then a\<lparr>slow_down_force := (0, 0)\<rparr>
      else a\<lparr>slow_down_force :=
               (if speed a > max_speed a
                then vmul (vdiv (vneg (velocity a)) (speed a)) (slow_down_force_magnitude a)
                else (0, 0)),
             velocity := vmul (vdiv (velocity a) (speed a)) 200\<rparr>)"

section \<open>Properties\<close>

subsection \<open>Norms\<close>

lemma linalg_norm_nonneg: "0 \<le> linalg_norm v"
  by (simp add: linalg_norm_def)

lemma linalg_norm_eq_0: "linalg_norm v = 0 \<longleftrightarrow> v = (0, 0)"
  by (cases v) (simp add: linalg_norm_def sum_power2_eq_zero_iff)

lemma linalg_norm_vmul: "linalg_norm (vmul v k) = \<bar>k\<bar> * linalg_norm v"
proof -
  have "(fst v * k)\<^sup>2 + (snd v * k)\<^sup>2 = k\<^sup>2 * ((fst v)\<^sup>2 + (snd v)\<^sup>2)"
    by (simp add: power_mult_distrib algebra_simps)
  then show ?thesis
    by (simp add: linalg_norm_def vmul_def real_sqrt_mult)
qed

lemma linalg_norm_vdiv: "linalg_norm (vdiv v k) = linalg_norm v / \<bar>k\<bar>"
proof -
  have "(fst v / k)\<^sup>2 + (snd v / k)\<^sup>2 = ((fst v)\<^sup>2 + (snd v)\<^sup>2) / k\<^sup>2"
    by (simp add: power_divide add_divide_distrib)
  then show ?thesis
    by (simp add: linalg_norm_def vdiv_def real_sqrt_divide)
qed

lemma linalg_norm_vneg: "linalg_norm (vneg v) = linalg_norm v"
  by (simp add: linalg_norm_def vneg_def)

subsection \<open>Damage\<close>

lemma health_reduce_health: "health (reduce_health a amount) = health a - amount"
  by (simp add: health_def reduce_health_def HealthBar_reduce_health_def)

lemma max_health_reduce_health:
  "max_health (health_bar (animal_image (reduce_health a amount))) =
   max_health (health_bar (animal_image a))"
  by (simp add: reduce_health_def HealthBar_reduce_health_def)

lemma reduce_health_all_upper:
  "\<forall>x\<in>set amounts. 0 \<le> x \<Longrightarrow> health a \<le> max_health (health_bar (animal_image a)) \<Longrightarrow>
   health (reduce_health_all a amounts)
     \<le> max_health (health_bar (animal_image (reduce_health_all a amounts)))"
proof (induction amounts arbitrary: a)
  case Nil
  then show ?case by simp
next
  case (Cons x xs)
  have "health (reduce_health a x) \<le> max_health (health_bar (animal_image (reduce_health a x)))"
    using Cons.prems by (simp add: health_reduce_health max_health_reduce_health)
  with Cons show ?case by simp
qed

text \<open>
  Claim C1, as stated, fails: \<open>reduce_health\<close> does not clamp at zero. An animal with
  health 1 that takes damage 2 has health -1, which is neither \<open>max(0, 1 - 2)\<close> nor within
  \<open>0 \<le> currentHealth\<close>.
\<close>

theorem reduce_health_counterexample:
  "health weak_animal = 1 \<and> health (reduce_health weak_animal 2) = - 1
   \<and> health (reduce_health weak_animal 2) \<noteq> max 0 (health weak_animal - 2)
   \<and> \<not> 0 \<le> health (reduce_health weak_animal 2)"
  by (simp add: health_reduce_health)
     (simp add: health_def weak_animal_def Animal_init_def)

text \<open>
  Claim C1, amended: \<open>reduce_health\<close> sets the current health to the current health minus
  the amount, with no clamp, and changes no other field of the animal; after any sequence
  of non-negative damage amounts the current health is still at most the maximal health,
  if it was before. (The lower bound 0 is not kept; an animal is dead at health \<open>\<le> 0\<close>.)
\<close>

theorem reduce_health_subtracts:
  "reduce_health a amount =
     a\<lparr>animal_image := (animal_image a)
          \<lparr>health_bar := (health_bar (animal_image a))\<lparr>current_health := health a - amount\<rparr>\<rparr>\<rparr>
   \<and> health (reduce_health a amount) = health a - amount
   \<and> ((\<forall>x\<in>set amounts. 0 \<le> x) \<and> health a \<le> max_health (health_bar (animal_image a)) \<longrightarrow>
        health (reduce_health_all a amounts)
          \<le> max_health (health_bar (animal_image (reduce_health_all a amounts))))"
  using reduce_health_all_upper [of amounts a]
  by (simp add: health_reduce_health)
     (simp add: reduce_health_def HealthBar_reduce_health_def health_def)

theorem reduce_health_subtracts_witness:
  "list_all ((\<le>) 0) [1, 2, 0.2 :: real]
   \<and> health weak_animal \<le> max_health (health_bar (animal_image weak_animal))
   \<and> health (reduce_health_all weak_animal [1, 2, 0.2])
        \<le> max_health (health_bar (animal_image (reduce_health_all weak_animal [1, 2, 0.2])))
   \<and> health (reduce_health_all weak_animal [1, 2, 0.2]) = - 2.2"
proof -
  have h: "health weak_animal = 1" "max_health (health_bar (animal_image weak_animal)) = 1"
    by (simp_all add: health_def weak_animal_def Animal_init_def)
  have "health (reduce_health_all weak_animal [1, 2, 0.2]) = - 2.2"
    by (simp add: health_reduce_health h)
  then show ?thesis
    using reduce_health_subtracts [of weak_animal 0 "[1, 2, 0.2]"] h by simp
qed

subsection \<open>The prey relation\<close>

lemma also_likes_to_eat_fst:
  "fst (also_likes_to_eat st self animals) = (if self \<in> set animals then Some SelfPrey else None)"
  by (induction animals arbitrary: st) auto

lemma also_likes_to_eat_eats:
  "eats (snd (also_likes_to_eat st self animals) self) \<subseteq> eats (st self) \<union> (set animals - {self})"
proof (induction animals arbitrary: st)
  case Nil
  then show ?case by simp
next
  case (Cons x xs)
  show ?case
  proof (cases "x = self")
    case True
    then show ?thesis by simp
  next
    case False
    let ?st = "st(self := (st self)\<lparr>eats := insert x (eats (st self))\<rparr>)"
    have "eats (snd (also_likes_to_eat ?st self xs) self) \<subseteq> eats (?st self) \<union> (set xs - {self})"
      by (rule Cons.IH)
    also have "\<dots> \<subseteq> eats (st self) \<union> (set (x # xs) - {self})"
      using False by auto
    finally show ?thesis using False by simp
  qed
qed

lemma also_likes_to_eat_prefix:
  "self \<notin> set before \<Longrightarrow>
   also_likes_to_eat st self (before @ self # rest) =
     (Some SelfPrey, st(self := (st self)\<lparr>eats := eats (st self) \<union> set before\<rparr>))"
proof (induction before arbitrary: st)
  case Nil
  then show ?case by simp
next
  case (Cons x xs)
  let ?st = "st(self := (st self)\<lparr>eats := insert x (eats (st self))\<rparr>)"
  have ne: "x \<noteq> self" and xs: "self \<notin> set xs" using Cons.prems by auto
  have "also_likes_to_eat st self ((x # xs) @ self # rest) =
        also_likes_to_eat ?st self (xs @ self # rest)"
    using ne by simp
  also have "\<dots> = (Some SelfPrey, ?st(self := (?st self)\<lparr>eats := eats (?st self) \<union> set xs\<rparr>))"
    by (rule Cons.IH [OF xs])
  also have "?st(self := (?st self)\<lparr>eats := eats (?st self) \<union> set xs\<rparr>) =
             st(self := (st self)\<lparr>eats := eats (st self) \<union> set (x # xs)\<rparr>)"
    by simp
  finally show ?case .
qed

text \<open>
  Claim C9: \<open>also_likes_to_eat\<close> raises the self-prey error exactly when \<open>self\<close> is among the
  animals given, and an animal that is not in its own prey set before the call is not in
  it afterwards, whether the call raised or not.
\<close>

theorem also_likes_to_eat_rejects_self:
  "fst (also_likes_to_eat st self animals) = (if self \<in> set animals then Some SelfPrey else None)
   \<and> (self \<notin> eats (st self) \<longrightarrow> self \<notin> eats (snd (also_likes_to_eat st self animals) self))"
  using also_likes_to_eat_eats [of st self animals]
  by (auto simp: also_likes_to_eat_fst)

theorem also_likes_to_eat_rejects_self_witness:
  "0 \<in> set [1, 0, 2 :: nat] \<and> 0 \<notin> eats (three_animals 0)
   \<and> fst (also_likes_to_eat three_animals 0 [1, 0, 2]) = Some SelfPrey
   \<and> 0 \<notin> eats (snd (also_likes_to_eat three_animals 0 [1, 0, 2]) 0)"
proof -
  have "0 \<notin> eats (three_animals 0)"
    by (simp add: three_animals_def put_def position_set_def Animal_init_def)
  then show ?thesis
    using also_likes_to_eat_rejects_self [of three_animals 0 "[1, 0, 2]"] by simp
qed

text \<open>
  Claim C10: the call is not atomic. When \<open>self\<close> occurs in the arguments, the call raises,
  and the store it leaves has every animal listed before the first occurrence of \<open>self\<close>
  added to the prey set (and nothing else changed).
\<close>

theorem also_likes_to_eat_not_atomic:
  "self \<notin> set before \<Longrightarrow>
   also_likes_to_eat st self (before @ self # rest) =
     (Some SelfPrey, st(self := (st self)\<lparr>eats := eats (st self) \<union> set before\<rparr>))
   \<and> set before \<subseteq> eats (snd (also_likes_to_eat st self (before @ self # rest)) self)"
  by (simp add: also_likes_to_eat_prefix)

theorem also_likes_to_eat_not_atomic_witness:
  "0 \<notin> set [1, 2 :: nat]
   \<and> also_likes_to_eat three_animals 0 ([1, 2] @ 0 # [3]) =
       (Some SelfPrey, three_animals(0 := (three_animals 0)\<lparr>eats := {1, 2}\<rparr>))
   \<and> eats (snd (also_likes_to_eat three_animals 0 [1, 2, 0, 3]) 0) = {1, 2}"
proof -
  have e: "eats (three_animals 0) = {}"
    by (simp add: three_animals_def put_def position_set_def Animal_init_def)
  have n: "0 \<notin> set [1, 2 :: nat]" by simp
  show ?thesis
    using also_likes_to_eat_not_atomic [OF n, of three_animals "[3]"] e
    by (simp add: insert_commute)
qed

subsection \<open>The velocity setter\<close>

lemma linalg_norm_3_4: "linalg_norm (3, 4) = 5"
proof -
  have "sqrt 25 = (5::real)" by (rule real_sqrt_unique) simp_all
  then show ?thesis by (simp add: linalg_norm_def)
qed

lemma linalg_norm_axis [simp]: "linalg_norm (x, 0) = \<bar>x\<bar>" "linalg_norm (0, y) = \<bar>y\<bar>"
  by (simp_all add: linalg_norm_def)

text \<open>
  Claim C8: assigning a velocity leaves the brake force at zero when the speed before the
  assignment was at most \<open>max_speed\<close>; when it was above (and not zero) the brake force is
  the old velocity, negated and divided by the old speed (a vector of norm 1), times the
  magnitude. The case left out, an old speed of zero above a negative \<open>max_speed\<close>, has no
  unit vector; the program divides zero by zero there.
\<close>

theorem velocity_set_brake:
  "(speed a \<le> max_speed a \<longrightarrow>
      velocity_set a v = Inr (a\<lparr>slow_down_force := (0, 0), velocity := v\<rparr>))
   \<and> (max_speed a < speed a \<and> 0 < speed a \<longrightarrow>
      velocity_set a v =
        Inr (a\<lparr>slow_down_force :=
                 vmul (vdiv (vneg (velocity a)) (speed a)) (slow_down_force_magnitude a),
               velocity := v\<rparr>)
      \<and> linalg_norm (vdiv (vneg (velocity a)) (speed a)) = 1
      \<and> vdiv (vneg (velocity a)) (speed a) = vneg (vdiv (velocity a) (speed a))
      \<and> linalg_norm (vmul (vdiv (vneg (velocity a)) (speed a)) (slow_down_force_magnitude a))
          = \<bar>slow_down_force_magnitude a\<bar>)"
proof -
  have "linalg_norm (vdiv (vneg (velocity a)) (speed a)) = 1" if "0 < speed a"
    using that by (simp add: linalg_norm_vdiv linalg_norm_vneg speed_def)
  then show ?thesis
    by (auto simp: velocity_set_def linalg_norm_vmul) (simp add: vdiv_def vneg_def)
qed

theorem velocity_set_brake_witness:
  "speed weak_animal = 0 \<and> max_speed weak_animal = 50
   \<and> velocity_set weak_animal (1, 1) =
       Inr (weak_animal\<lparr>slow_down_force := (0, 0), velocity := (1, 1)\<rparr>)
   \<and> speed fast_animal = 5 \<and> max_speed fast_animal = 4
   \<and> velocity_set fast_animal (0, 0) =
       Inr (fast_animal\<lparr>slow_down_force := (- 12, - 16), velocity := (0, 0)\<rparr>)"
proof -
  have w: "speed weak_animal = 0" "max_speed weak_animal = 50"
    by (simp_all add: speed_def weak_animal_def Animal_init_def linalg_norm_def)
  have f: "speed fast_animal = 5" "max_speed fast_animal = 4"
    "velocity fast_animal = (3, 4)" "slow_down_force_magnitude fast_animal = 20"
    by (simp_all add: speed_def fast_animal_def Animal_init_def linalg_norm_3_4)
  show ?thesis
    using velocity_set_brake [of weak_animal "(1, 1)"] velocity_set_brake [of fast_animal "(0, 0)"]
    by (simp add: w f vmul_def vdiv_def vneg_def)
qed

(* C3 *)

subsection \<open>Collision detection\<close>

lemma find_collision_Some:
  "find_collision cc a g = Some c \<Longrightarrow> animal1 c = a \<and> animal2 c \<in> set g \<and> cc a (animal2 c)"
  by (induction g) (auto split: if_splits)

lemma collision_animals_snoc:
  "collision_animals (cs @ [c]) = collision_animals cs @ [animal1 c, animal2 c]"
  by (simp add: collision_animals_def)

lemma find_collisions_loop_disjoint:
  "distinct g \<Longrightarrow> distinct (collision_animals cs) \<Longrightarrow> set g \<inter> set (collision_animals cs) = {} \<Longrightarrow>
   distinct (collision_animals (find_collisions_loop cc g cs))
   \<and> set (collision_animals (find_collisions_loop cc g cs)) \<subseteq> set g \<union> set (collision_animals cs)"
proof (induction cc g cs rule: find_collisions_loop.induct)
  case (1 cc cs)
  then show ?case by simp
next
  case (2 cc a g cs)
  show ?case
  proof (cases "find_collision cc a g")
    case None
    have "distinct (collision_animals (find_collisions_loop cc g cs))
      \<and> set (collision_animals (find_collisions_loop cc g cs)) \<subseteq> set g \<union> set (collision_animals cs)"
      using "2.IH"(1) [OF None] "2.prems" by auto
    then show ?thesis using None by auto
  next
    case (Some c)
    let ?g = "group_remove g [animal1 c, animal2 c]"
    let ?cs = "cs @ [c]"
    have c: "animal1 c = a" "animal2 c \<in> set g"
      using find_collision_Some [OF Some] by auto
    have ne: "animal2 c \<noteq> a" using c "2.prems"(1) by auto
    have d1: "distinct ?g" using "2.prems"(1) by (simp add: group_remove_def)
    have d2: "distinct (collision_animals ?cs)"
      using "2.prems" c ne by (auto simp: collision_animals_snoc)
    have d3: "set ?g \<inter> set (collision_animals ?cs) = {}"
      using "2.prems"(3) by (auto simp: collision_animals_snoc group_remove_def)
    have "distinct (collision_animals (find_collisions_loop cc ?g ?cs))
      \<and> set (collision_animals (find_collisions_loop cc ?g ?cs)) \<subseteq> set ?g \<union> set (collision_animals ?cs)"
      by (rule "2.IH"(2) [OF Some d1 d2 d3])
    moreover have "set ?g \<union> set (collision_animals ?cs) \<subseteq> set (a # g) \<union> set (collision_animals cs)"
      using c by (auto simp: collision_animals_snoc group_remove_def)
    ultimately show ?thesis using Some by auto
  qed
qed

text \<open>
  Claim C3: in the list that \<open>find_collisions\<close> returns for a group, no animal occurs
  twice: not within a pair and not in two pairs. Every animal in it is from the group.
\<close>

theorem find_collisions_no_shared_animal:
  "distinct animal_group \<Longrightarrow>
   distinct (collision_animals (find_collisions collide_circle animal_group))
   \<and> set (collision_animals (find_collisions collide_circle animal_group)) \<subseteq> set animal_group"
  using find_collisions_loop_disjoint [of animal_group "[]" collide_circle]
  by (simp add: find_collisions_def collision_animals_def)

theorem find_collisions_no_shared_animal_witness:
  "distinct [0, 1, 2, 3, 4 :: nat]
   \<and> find_collisions all_touching [0, 1, 2, 3, 4] =
       [\<lparr>animal1 = 0, animal2 = 1\<rparr>, \<lparr>animal1 = 2, animal2 = 3\<rparr>]
   \<and> distinct (collision_animals (find_collisions all_touching [0, 1, 2, 3, 4]))"
proof -
  have d: "distinct [0, 1, 2, 3, 4 :: nat]" by simp
  have "find_collisions all_touching [0, 1, 2, 3, 4] =
       [\<lparr>animal1 = 0, animal2 = 1\<rparr>, \<lparr>animal1 = 2, animal2 = 3\<rparr>]"
    by (simp add: find_collisions_def all_touching_def group_remove_def)
  then show ?thesis
    using find_collisions_no_shared_animal [OF d, of all_touching] by simp
qed

(* C7 *)

subsection \<open>Termination of the simulation\<close>

lemma simulation_completed_loop_iff:
  "simulation_completed_loop st animals = (\<forall>a\<in>set animals. subject_animal (st a) = None)"
  by (induction animals) auto

lemma set_foldl_group_add: "set (foldl group_add xs ys) = set xs \<union> set ys"
  by (induction ys arbitrary: xs) (auto simp: group_add_def)

lemma set_all_animals: "set (all_animals e) = set (live_animals e) \<union> set (dying_animals e)"
  by (simp add: all_animals_def set_foldl_group_add)

lemma simulation_completed_iff:
  "simulation_completed (heap e) (all_animals e) \<longleftrightarrow>
     (\<forall>a\<in>set (all_animals e). subject_animal (heap e a) = None)"
  by (cases "all_animals e") (simp_all add: simulation_completed_def simulation_completed_loop_iff)

text \<open>
  The engine calls the predicate in one place, on the combined population, after
  \<open>update_subject_animal\<close> has run on every animal of it. Two facts hold there. A dead
  animal has no subject: \<open>update_subject_animal\<close> clears the subject and returns at once
  for a dead animal, and touches no other animal. The animals of the dying group are
  dead: an animal enters the group through \<open>add_animals\<close> or through the pass over the
  live animals, dead in both cases, and what the pass stores in it leaves it dead.
\<close>

lemma subject_animal_set_others:
  "subject_animal_set st self x = Inr st' \<Longrightarrow> a \<noteq> self \<Longrightarrow> st' a = st a"
  by (auto simp: subject_animal_set_def propulsion_force_set_def Let_def
      split: option.splits if_splits sum.splits)

lemma update_subject_animal_dead:
  "is_dead (st self) \<Longrightarrow>
   update_subject_animal st self animal_group animals =
     Inr (st(self := (st self)\<lparr>eats := eats (st self) \<inter> set animal_group,
                               subject_animal := None, propulsion_force := (0, 0)\<rparr>))"
  by (simp add: update_subject_animal_def subject_animal_set_def propulsion_force_set_def
      Let_def is_dead_def)

lemma update_subject_animal_others:
  assumes "update_subject_animal st self animal_group animals = Inr st'" and "a \<noteq> self"
  shows "st' a = st a"
proof -
  let ?st1 = "st(self := (st self)\<lparr>eats := eats (st self) \<inter> set animal_group\<rparr>)"
  obtain st2 where st2: "subject_animal_set ?st1 self None = Inr st2"
    by (simp add: subject_animal_set_def)
  have "st2 a = ?st1 a" by (rule subject_animal_set_others [OF st2 assms(2)])
  then have eq2: "st2 a = st a" using assms(2) by simp
  have "st' = st2 \<or> (\<exists>x. subject_animal_set st2 self (Some x) = Inr st')"
    using assms(1) st2 unfolding update_subject_animal_def Let_def
    by (auto split: if_splits list.splits)
  then show ?thesis
  proof
    assume "st' = st2"
    then show ?thesis using eq2 by simp
  next
    assume "\<exists>x. subject_animal_set st2 self (Some x) = Inr st'"
    then obtain x where "subject_animal_set st2 self (Some x) = Inr st'" ..
    then have "st' a = st2 a" using assms(2) by (rule subject_animal_set_others)
    then show ?thesis using eq2 by simp
  qed
qed

lemma add_animals_heap: "heap (add_animals e animals) = heap e"
  by (induction animals arbitrary: e) auto

lemma add_animals_dying_dead:
  "\<forall>a\<in>set (dying_animals e). is_dead (heap e a) \<Longrightarrow>
   \<forall>a\<in>set (dying_animals (add_animals e animals)). is_dead (heap (add_animals e animals) a)"
proof (induction animals arbitrary: e)
  case Nil
  then show ?case by simp
next
  case (Cons x xs)
  let ?e = "if is_dead (heap e x)
        then e\<lparr>dying_animals := group_add (dying_animals e) x\<rparr>
        else e\<lparr>live_animals := group_add (live_animals e) x\<rparr>"
  have "\<forall>a\<in>set (dying_animals ?e). is_dead (heap ?e a)"
    using Cons.prems by (auto simp: group_add_def)
  from Cons.IH [OF this] show ?case by simp
qed

text \<open>
  Claim C7: where every animal of the dying group is dead and every dead animal of the
  combined population has no subject, as is the case where the engine calls it,
  \<open>simulation_completed\<close> on the combined population is true exactly when that population
  is empty or every live animal has no subject.
\<close>

theorem simulation_completed_live_focus:
  assumes "\<forall>a\<in>set (dying_animals e). is_dead (heap e a)"
    and "\<forall>a\<in>set (all_animals e). is_dead (heap e a) \<longrightarrow> subject_animal (heap e a) = None"
  shows "simulation_completed (heap e) (all_animals e) \<longleftrightarrow>
     all_animals e = [] \<or> (\<forall>a\<in>set (live_animals e). subject_animal (heap e a) = None)"
proof -
  have dying: "\<forall>a\<in>set (dying_animals e). subject_animal (heap e a) = None"
    using assms by (simp add: set_all_animals)
  have empty: "all_animals e = [] \<longleftrightarrow> live_animals e = [] \<and> dying_animals e = []"
    using set_all_animals [of e] by (metis Un_empty set_empty)
  show ?thesis
    unfolding simulation_completed_iff set_all_animals empty using dying by auto
qed

theorem simulation_completed_live_focus_witness:
  "all_animals idle_engine = [0, 1, 2] \<and> is_dead (heap idle_engine 2)
   \<and> subject_animal (heap idle_engine 0) = None
   \<and> subject_animal (heap idle_engine 1) = None
   \<and> simulation_completed (heap idle_engine) (all_animals idle_engine)
   \<and> all_animals hunting_engine = [0, 1, 2] \<and> is_dead (heap hunting_engine 2)
   \<and> subject_animal (heap hunting_engine 0) = Some 1
   \<and> \<not> simulation_completed (heap hunting_engine) (all_animals hunting_engine)"
proof -
  have g: "live_animals idle_engine = [0, 1]" "dying_animals idle_engine = [2]"
    "live_animals hunting_engine = [0, 1]" "dying_animals hunting_engine = [2]"
    by (simp_all add: hunting_engine_def idle_engine_def)
  have al: "all_animals idle_engine = [0, 1, 2]" "all_animals hunting_engine = [0, 1, 2]"
    by (simp_all add: all_animals_def g group_add_def)
  have s: "subject_animal (heap idle_engine a) = None" for a
    by (simp add: idle_engine_def three_animals_def put_def position_set_def Animal_init_def
        reduce_health_def)
  have h: "subject_animal (heap hunting_engine 0) = Some 1"
    "subject_animal (heap hunting_engine 2) = None"
    by (simp_all add: hunting_engine_def idle_engine_def three_animals_def put_def
        position_set_def Animal_init_def reduce_health_def)
  have d: "is_dead (heap idle_engine a) \<longleftrightarrow> a = 2" "is_dead (heap hunting_engine a) \<longleftrightarrow> a = 2" for a
    by (simp_all add: hunting_engine_def idle_engine_def three_animals_def put_def
        position_set_def Animal_init_def reduce_health_def HealthBar_reduce_health_def
        is_dead_def HealthBar_is_dead_def)
  have i1: "\<forall>a\<in>set (dying_animals idle_engine). is_dead (heap idle_engine a)"
    and i2: "\<forall>a\<in>set (all_animals idle_engine).
       is_dead (heap idle_engine a) \<longrightarrow> subject_animal (heap idle_engine a) = None"
    by (simp_all add: g d s)
  have h1: "\<forall>a\<in>set (dying_animals hunting_engine). is_dead (heap hunting_engine a)"
    and h2: "\<forall>a\<in>set (all_animals hunting_engine).
       is_dead (heap hunting_engine a) \<longrightarrow> subject_animal (heap hunting_engine a) = None"
    by (simp_all add: g d h)
  show ?thesis
    using simulation_completed_live_focus [OF i1 i2] simulation_completed_live_focus [OF h1 h2]
    by (simp add: al g s h d)
qed

subsection \<open>Targeting\<close>

text \<open>The head of a stably sorted list is the first element of least key.\<close>

lemma find_least_key_insort:
  "sort_key k xs = y # ys \<Longrightarrow> List.find (\<lambda>u. \<forall>z\<in>set xs. k u \<le> k z) xs = Some y"
proof (induction xs arbitrary: y ys)
  case Nil
  then show ?case by simp
next
  case (Cons x xs)
  show ?case
  proof (cases "sort_key k xs")
    case Nil
    then have "xs = []" by (metis length_sort list.size(3) length_0_conv)
    with Cons.prems show ?thesis by simp
  next
    case (Cons y' ys')
    have IH: "List.find (\<lambda>u. \<forall>z\<in>set xs. k u \<le> k z) xs = Some y'"
      by (rule Cons.IH [OF Cons])
    then have y'_in: "y' \<in> set xs" and y'_min: "\<forall>z\<in>set xs. k y' \<le> k z"
      by (auto simp: find_Some_iff)
    show ?thesis
    proof (cases "k x \<le> k y'")
      case True
      then have "y = x" using Cons.prems Cons by simp
      moreover have "\<forall>z\<in>set (x # xs). k x \<le> k z" using True y'_min by auto
      ultimately show ?thesis by simp
    next
      case False
      then have y: "y = y'" using Cons.prems Cons by simp
      have nx: "\<not> (\<forall>z\<in>set (x # xs). k x \<le> k z)" using False y'_in by auto
      have "(\<forall>z\<in>set (x # xs). k u \<le> k z) \<longleftrightarrow> (\<forall>z\<in>set xs. k u \<le> k z)" if "u \<in> set xs" for u
      proof
        assume "\<forall>z\<in>set xs. k u \<le> k z"
        then have "k u \<le> k y'" using y'_in by auto
        then have "k u \<le> k x" using False by simp
        then show "\<forall>z\<in>set (x # xs). k u \<le> k z" using \<open>\<forall>z\<in>set xs. k u \<le> k z\<close> by simp
      qed simp
      then have "List.find (\<lambda>u. \<forall>z\<in>set (x # xs). k u \<le> k z) xs =
                 List.find (\<lambda>u. \<forall>z\<in>set xs. k u \<le> k z) xs"
        by (intro find_cong) auto
      then show ?thesis using nx IH y by auto
    qed
  qed
qed

lemma normalized_vector_to_Inr:
  "\<not> on_top a b \<Longrightarrow> \<exists>d. normalized_vector_to a b = Inr d"
  by (cases "position a"; cases "position b")
     (auto simp: normalized_vector_to_def Let_def distance_to_def vector_to_def
        linalg_norm_eq_0 vsub_def on_top_def)

lemma subject_animal_set_None:
  "subject_animal_set st self None =
     Inr (st(self := (st self)\<lparr>subject_animal := None, propulsion_force := (0, 0)\<rparr>))"
  by (simp add: subject_animal_set_def propulsion_force_set_def)

lemma subject_animal_set_prey:
  assumes "x \<in> eats (st self)"
  shows "\<exists>st'. subject_animal_set st self (Some x) = Inr st'
     \<and> subject_animal (st' self) = Some x \<and> eats (st' self) = eats (st self)"
proof (cases "on_top ((st(self := (st self)\<lparr>subject_animal := Some x\<rparr>)) self)
                     ((st(self := (st self)\<lparr>subject_animal := Some x\<rparr>)) x)")
  case True
  then show ?thesis
    by (simp add: subject_animal_set_def propulsion_force_set_def Let_def)
next
  case False
  from normalized_vector_to_Inr [OF False] obtain d where
    "normalized_vector_to ((st(self := (st self)\<lparr>subject_animal := Some x\<rparr>)) self)
        ((st(self := (st self)\<lparr>subject_animal := Some x\<rparr>)) x) = Inr d" ..
  with False assms show ?thesis
    by (simp add: subject_animal_set_def propulsion_force_set_def Let_def wants_to_eat_def)
qed

lemma update_subject_animal_result:
  assumes it: "set_iteration (eats (st self) \<inter> set animal_group) animals"
  shows "\<exists>st'. update_subject_animal st self animal_group animals = Inr st'
     \<and> eats (st' self) = eats (st self) \<inter> set animal_group
     \<and> subject_animal (st' self) =
         (if is_dead (st self) then None
          else List.find (\<lambda>u. \<forall>z\<in>set animals.
                 distance_to (st self) (st u) \<le> distance_to (st self) (st z)) animals)
     \<and> (subject_animal (st' self) = None \<longrightarrow> propulsion_force (st' self) = (0, 0))"
proof -
  let ?st1 = "st(self := (st self)\<lparr>eats := eats (st self) \<inter> set animal_group\<rparr>)"
  let ?st2 = "?st1(self := (?st1 self)\<lparr>subject_animal := None, propulsion_force := (0, 0)\<rparr>)"
  let ?k = "\<lambda>x. distance_to (st self) (st x)"
  have k: "(\<lambda>x. distance_to (?st2 self) (?st2 x)) = ?k"
    by (auto simp: distance_to_def vector_to_def fun_eq_iff)
  have dead: "is_dead (?st2 self) = is_dead (st self)"
    by (simp add: is_dead_def)
  have upd: "update_subject_animal st self animal_group animals =
      (if is_dead (st self) then Inr ?st2
       else case sort_key ?k animals of
              [] \<Rightarrow> Inr ?st2
            | animal # _ \<Rightarrow> subject_animal_set ?st2 self (Some animal))"
  proof -
    have "update_subject_animal st self animal_group animals =
      (if is_dead (?st2 self) then Inr ?st2
       else case sort_key (\<lambda>x. distance_to (?st2 self) (?st2 x)) animals of
              [] \<Rightarrow> Inr ?st2
            | animal # _ \<Rightarrow> subject_animal_set ?st2 self (Some animal))"
      by (simp only: update_subject_animal_def Let_def subject_animal_set_None sum.case)
    then show ?thesis by (simp only: k dead)
  qed
  show ?thesis
  proof (cases "is_dead (st self)")
    case True
    then show ?thesis unfolding upd by simp
  next
    case False
    show ?thesis
    proof (cases "sort_key ?k animals")
      case Nil
      then have "animals = []" by (metis length_sort list.size(3) length_0_conv)
      with False Nil show ?thesis unfolding upd by simp
    next
      case (Cons x xs)
      have f: "List.find (\<lambda>u. \<forall>z\<in>set animals. ?k u \<le> ?k z) animals = Some x"
        by (rule find_least_key_insort [OF Cons])
      then have "x \<in> set animals" by (auto simp: find_Some_iff)
      then have "x \<in> eats (?st2 self)" using it by (simp add: set_iteration_def)
      from subject_animal_set_prey [of x ?st2 self, OF this] obtain st' where
        st': "subject_animal_set ?st2 self (Some x) = Inr st'"
          "subject_animal (st' self) = Some x" "eats (st' self) = eats (?st2 self)"
        by blast
      have "update_subject_animal st self animal_group animals = Inr st'"
        unfolding upd using False Cons st'(1) by simp
      then show ?thesis using st' f False by simp
    qed
  qed
qed

text \<open>
  Claim C5, as stated, fails in its tie-break. The candidates are listed by iterating the
  prey set, a Python set of objects hashed by identity, and the stable sort keeps that
  order among equal distances; the order of the population plays no part. Animal 0 has
  prey 1 and 2 at distance 100 each, the population is \<open>[1, 2]\<close>, the set is iterated as
  \<open>[2, 1]\<close>, and the subject becomes 2.
\<close>

theorem update_subject_animal_counterexample:
  "set_iteration (eats (tie_store 0) \<inter> set [1, 2]) [2, 1]
   \<and> distance_to (tie_store 0) (tie_store 1) = 100
   \<and> distance_to (tie_store 0) (tie_store 2) = 100
   \<and> subject_after (update_subject_animal tie_store 0 [1, 2] [2, 1]) 0 = Inr (Some 2)"
proof -
  have p: "position (tie_store 0) = (100, 50)" "position (tie_store 1) = (0, 50)"
    "position (tie_store 2) = (200, 50)" "eats (tie_store 0) = {1, 2}"
    "position (tie_store (Suc 0)) = (0, 50)"
    by (simp_all add: tie_store_def put_def position_set_def Animal_init_def)
  have d: "distance_to (tie_store 0) (tie_store 1) = 100"
    "distance_to (tie_store 0) (tie_store 2) = 100"
    by (simp_all add: distance_to_def vector_to_def vsub_def p)
  have it: "set_iteration (eats (tie_store 0) \<inter> set [1, 2]) [2, 1]"
    by (auto simp: set_iteration_def p)
  have alive: "\<not> is_dead (tie_store 0)"
    by (simp add: is_dead_def HealthBar_is_dead_def tie_store_def put_def position_set_def
        Animal_init_def)
  from update_subject_animal_result [of tie_store 0 "[1, 2]" "[2, 1]", OF it] obtain st' where
    "update_subject_animal tie_store 0 [1, 2] [2, 1] = Inr st'"
    "subject_animal (st' 0) =
       (if is_dead (tie_store 0) then None
        else List.find (\<lambda>u. \<forall>z\<in>set [2, 1].
               distance_to (tie_store 0) (tie_store u) \<le> distance_to (tie_store 0) (tie_store z))
               [2, 1])"
    by blast
  then have "subject_after (update_subject_animal tie_store 0 [1, 2] [2, 1]) 0 = Inr (Some 2)"
    using alive d by (simp add: subject_after_def)
  with it d show ?thesis by simp
qed

text \<open>
  Claim C5, amended: \<open>update_subject_animal\<close> always returns, with the prey set pruned to
  the group. If the animal is dead or the pruned prey set is empty, the subject is none
  and the propulsion force is zero. Otherwise the subject is a member of the pruned prey
  set at least distance, and among the members at that distance it is the first in the
  iteration order of the prey set.
\<close>

theorem update_subject_animal_nearest:
  assumes "set_iteration (eats (st self) \<inter> set animal_group) animals"
  shows "\<exists>st'. update_subject_animal st self animal_group animals = Inr st'
     \<and> eats (st' self) = eats (st self) \<inter> set animal_group
     \<and> (if is_dead (st self) \<or> eats (st self) \<inter> set animal_group = {}
         then subject_animal (st' self) = None \<and> propulsion_force (st' self) = (0, 0)
         else \<exists>x. subject_animal (st' self) = Some x
              \<and> x \<in> eats (st self) \<inter> set animal_group
              \<and> (\<forall>y\<in>eats (st self) \<inter> set animal_group.
                    distance_to (st self) (st x) \<le> distance_to (st self) (st y))
              \<and> List.find (\<lambda>y. distance_to (st self) (st y) = distance_to (st self) (st x))
                    animals = Some x)"
proof -
  let ?P = "\<lambda>u. \<forall>z\<in>set animals. distance_to (st self) (st u) \<le> distance_to (st self) (st z)"
  have s: "set animals = eats (st self) \<inter> set animal_group"
    using assms by (simp add: set_iteration_def)
  from update_subject_animal_result [of st self animal_group animals, OF assms] obtain st' where
    r0: "update_subject_animal st self animal_group animals = Inr st'
      \<and> eats (st' self) = eats (st self) \<inter> set animal_group
      \<and> subject_animal (st' self) = (if is_dead (st self) then None else List.find ?P animals)
      \<and> (subject_animal (st' self) = None \<longrightarrow> propulsion_force (st' self) = (0, 0))" ..
  have r: "update_subject_animal st self animal_group animals = Inr st'"
      "eats (st' self) = eats (st self) \<inter> set animal_group"
      "subject_animal (st' self) = (if is_dead (st self) then None else List.find ?P animals)"
      "subject_animal (st' self) = None \<longrightarrow> propulsion_force (st' self) = (0, 0)"
    using r0 by blast+
  show ?thesis
  proof (cases "is_dead (st self) \<or> eats (st self) \<inter> set animal_group = {}")
    case True
    then have "subject_animal (st' self) = None" using r(3) s by auto
    with True r show ?thesis by simp
  next
    case False
    then have ne: "animals \<noteq> []" and alive: "\<not> is_dead (st self)" using s by auto
    have fin: "finite ((\<lambda>z. distance_to (st self) (st z)) ` set animals)" by simp
    obtain m where m: "m \<in> set animals"
      "\<forall>z\<in>set animals. distance_to (st self) (st m) \<le> distance_to (st self) (st z)"
      using ne ex_min_if_finite [of "(\<lambda>z. distance_to (st self) (st z)) ` set animals"]
      by (metis (no_types, lifting) List.finite_set arg_min_if_finite(1,2) linorder_not_less
          set_empty)
    then obtain x where x: "List.find ?P animals = Some x"
      by (cases "List.find ?P animals") (auto simp: find_None_iff)
    then obtain i where i: "i < length animals" "animals ! i = x" "?P x"
      "\<forall>j<i. \<not> ?P (animals ! j)"
      by (auto simp: find_Some_iff)
    have first: "List.find (\<lambda>y. distance_to (st self) (st y) = distance_to (st self) (st x))
        animals = Some x"
      unfolding find_Some_iff
    proof (intro exI [of _ i] conjI allI impI)
      fix j assume j: "j < i"
      then have "animals ! j \<in> set animals" using i(1) by simp
      show "distance_to (st self) (st (animals ! j)) \<noteq> distance_to (st self) (st x)"
      proof
        assume "distance_to (st self) (st (animals ! j)) = distance_to (st self) (st x)"
        then have "?P (animals ! j)" using i(3) by simp
        then show False using i(4) j by simp
      qed
    qed (use i in simp_all)
    have "x \<in> set animals" using i by auto
    then show ?thesis using False r x i(3) first s alive by auto
  qed
qed

theorem update_subject_animal_nearest_witness:
  "set_iteration (eats (tie_store 0) \<inter> set [1, 2]) [1, 2]
   \<and> \<not> is_dead (tie_store 0)
   \<and> subject_after (update_subject_animal tie_store 0 [1, 2] [1, 2]) 0 = Inr (Some 1)"
proof -
  have p: "position (tie_store 0) = (100, 50)" "position (tie_store 1) = (0, 50)"
    "position (tie_store 2) = (200, 50)" "eats (tie_store 0) = {1, 2}"
    "position (tie_store (Suc 0)) = (0, 50)"
    by (simp_all add: tie_store_def put_def position_set_def Animal_init_def)
  have d: "distance_to (tie_store 0) (tie_store 1) = 100"
    "distance_to (tie_store 0) (tie_store 2) = 100"
    by (simp_all add: distance_to_def vector_to_def vsub_def p)
  have it: "set_iteration (eats (tie_store 0) \<inter> set [1, 2]) [1, 2]"
    by (auto simp: set_iteration_def p)
  have alive: "\<not> is_dead (tie_store 0)"
    by (simp add: is_dead_def HealthBar_is_dead_def tie_store_def put_def position_set_def
        Animal_init_def)
  have ne: "eats (tie_store 0) \<inter> set [1, 2] \<noteq> {}" by (simp add: p)
  from update_subject_animal_nearest [of tie_store 0 "[1, 2]" "[1, 2]", OF it]
  obtain st' where r: "update_subject_animal tie_store 0 [1, 2] [1, 2] = Inr st'
     \<and> eats (st' 0) = eats (tie_store 0) \<inter> set [1, 2]
     \<and> (if is_dead (tie_store 0) \<or> eats (tie_store 0) \<inter> set [1, 2] = {}
         then subject_animal (st' 0) = None \<and> propulsion_force (st' 0) = (0, 0)
         else \<exists>x. subject_animal (st' 0) = Some x
              \<and> x \<in> eats (tie_store 0) \<inter> set [1, 2]
              \<and> (\<forall>y\<in>eats (tie_store 0) \<inter> set [1, 2].
                    distance_to (tie_store 0) (tie_store x) \<le> distance_to (tie_store 0) (tie_store y))
              \<and> List.find (\<lambda>y. distance_to (tie_store 0) (tie_store y)
                                = distance_to (tie_store 0) (tie_store x)) [1, 2] = Some x)" ..
  then obtain x where x: "subject_animal (st' 0) = Some x"
    "x \<in> eats (tie_store 0) \<inter> set [1, 2]"
    "List.find (\<lambda>y. distance_to (tie_store 0) (tie_store y)
                      = distance_to (tie_store 0) (tie_store x)) [1, 2] = Some x"
    using alive ne by auto
  have "distance_to (tie_store 0) (tie_store x) = 100" using x(2) d by auto
  then have "x = 1" using x(3) d by simp
  then have "subject_after (update_subject_animal tie_store 0 [1, 2] [1, 2]) 0 = Inr (Some 1)"
    using r x(1) by (simp add: subject_after_def)
  with it alive show ?thesis by simp
qed

subsection \<open>The transition to dying\<close>

lemma is_dead_killed: "is_dead (killed a) = is_dead a"
  by (simp add: killed_def is_dead_def)

lemma speed_killed: "speed a \<noteq> 0 \<Longrightarrow> speed (killed a) = 200"
  using linalg_norm_nonneg [of "velocity a"]
  by (simp add: killed_def speed_def linalg_norm_vmul linalg_norm_vdiv)

lemma velocity_killed:
  "speed a \<noteq> 0 \<Longrightarrow> velocity (killed a) = vmul (vdiv (velocity a) (speed a)) 200"
  by (simp add: killed_def)

text \<open>
  One step of the pass has a result unless the animal is dead and at rest under a negative
  speed cap, where the setter divides zero by zero.
\<close>

lemma kill_if_dead_eq:
  assumes "0 \<le> max_speed (heap e a)"
  shows "kill_if_dead e a =
     Inr (if is_dead (heap e a)
          then e\<lparr>heap := (heap e)(a := killed (heap e a)),
                 live_animals := group_remove (live_animals e) [a],
                 dying_animals := group_add (dying_animals e) a,
                 play_death_sound := True,
                 nan_velocity := (if speed (heap e a) = 0 then insert a (nan_velocity e)
                                  else nan_velocity e)\<rparr>
          else e)"
  using assms
  by (simp add: kill_if_dead_def velocity_set_def velocity_set_nan_def killed_def
      kill_animal_def delayed_death_sound_def)

lemma group_remove_twice:
  "group_remove (group_remove xs [a]) ys = group_remove xs (a # ys)"
  by (induction xs) (auto simp: group_remove_def)

lemma kill_dead_animals_result:
  assumes "distinct xs" "\<forall>a\<in>set xs. 0 \<le> max_speed (heap e a)"
  shows "\<exists>e'. kill_dead_animals e xs = Inr e'
     \<and> live_animals e' = group_remove (live_animals e) (filter (\<lambda>a. is_dead (heap e a)) xs)
     \<and> set (dying_animals e') = set (dying_animals e) \<union> {a \<in> set xs. is_dead (heap e a)}
     \<and> nan_velocity e' =
         nan_velocity e \<union> {a \<in> set xs. is_dead (heap e a) \<and> speed (heap e a) = 0}
     \<and> (\<forall>a. heap e' a = (if a \<in> set xs \<and> is_dead (heap e a) then killed (heap e a) else heap e a))"
  using assms
proof (induction xs arbitrary: e)
  case Nil
  then show ?case by (simp add: group_remove_def)
next
  case (Cons x xs)
  let ?e1 = "if is_dead (heap e x)
          then e\<lparr>heap := (heap e)(x := killed (heap e x)),
                 live_animals := group_remove (live_animals e) [x],
                 dying_animals := group_add (dying_animals e) x,
                 play_death_sound := True,
                 nan_velocity := (if speed (heap e x) = 0 then insert x (nan_velocity e)
                                  else nan_velocity e)\<rparr>
          else e"
  have step: "kill_if_dead e x = Inr ?e1"
    using Cons.prems(2) by (intro kill_if_dead_eq) simp
  have same: "heap ?e1 a = heap e a" if "a \<in> set xs" for a
    using that Cons.prems(1) by auto
  have pre: "\<forall>a\<in>set xs. 0 \<le> max_speed (heap ?e1 a)"
    using Cons.prems(2) same by auto
  have dist: "distinct xs" using Cons.prems(1) by simp
  from Cons.IH [OF dist pre] obtain e' where e':
    "kill_dead_animals ?e1 xs = Inr e'
     \<and> live_animals e' = group_remove (live_animals ?e1) (filter (\<lambda>a. is_dead (heap ?e1 a)) xs)
     \<and> set (dying_animals e') = set (dying_animals ?e1) \<union> {a \<in> set xs. is_dead (heap ?e1 a)}
     \<and> nan_velocity e' =
         nan_velocity ?e1 \<union> {a \<in> set xs. is_dead (heap ?e1 a) \<and> speed (heap ?e1 a) = 0}
     \<and> (\<forall>a. heap e' a =
           (if a \<in> set xs \<and> is_dead (heap ?e1 a) then killed (heap ?e1 a) else heap ?e1 a))" ..
  have filt: "filter (\<lambda>a. is_dead (heap ?e1 a)) xs = filter (\<lambda>a. is_dead (heap e a)) xs"
    by (rule filter_cong) (use same in auto)
  have dset: "{a \<in> set xs. is_dead (heap ?e1 a)} = {a \<in> set xs. is_dead (heap e a)}"
    using same by (auto simp: is_dead_killed)
  have nset: "{a \<in> set xs. is_dead (heap ?e1 a) \<and> speed (heap ?e1 a) = 0}
            = {a \<in> set xs. is_dead (heap e a) \<and> speed (heap e a) = 0}"
  proof -
    have "is_dead (heap ?e1 a) \<and> speed (heap ?e1 a) = 0
          \<longleftrightarrow> is_dead (heap e a) \<and> speed (heap e a) = 0" if "a \<in> set xs" for a
      using same [OF that] by simp
    then show ?thesis by blast
  qed
  have run: "kill_dead_animals e (x # xs) = Inr e'"
    using step e' by simp
  have live: "live_animals e' = group_remove (live_animals e) (filter (\<lambda>a. is_dead (heap e a)) (x # xs))"
    using e' filt by (auto simp: group_remove_twice)
  have dying: "set (dying_animals e') = set (dying_animals e) \<union> {a \<in> set (x # xs). is_dead (heap e a)}"
    using e' dset by (auto simp: group_add_def)
  have nan: "nan_velocity e' =
      nan_velocity e \<union> {a \<in> set (x # xs). is_dead (heap e a) \<and> speed (heap e a) = 0}"
  proof -
    have "nan_velocity e' =
        nan_velocity ?e1 \<union> {a \<in> set xs. is_dead (heap e a) \<and> speed (heap e a) = 0}"
      using e' nset by simp
    moreover have "nan_velocity ?e1 =
        nan_velocity e \<union> {a \<in> {x}. is_dead (heap e a) \<and> speed (heap e a) = 0}"
      by auto
    ultimately show ?thesis by auto
  qed
  have hp: "heap e' a = (if a \<in> set (x # xs) \<and> is_dead (heap e a) then killed (heap e a) else heap e a)"
    for a
  proof (cases "a \<in> set xs")
    case True
    then have "a \<noteq> x" using Cons.prems(1) by auto
    then show ?thesis using e' True same [OF True] by simp
  next
    case False
    then have "heap e' a = heap ?e1 a" using e' by simp
    then show ?thesis using False by auto
  qed
  show ?case using run live dying nan hp by blast
qed

text \<open>The pass leaves the dying group made of dead animals.\<close>

lemma start_kill_dead_dying_dead:
  assumes "distinct (live_animals e)" "\<forall>a\<in>set (live_animals e). 0 \<le> max_speed (heap e a)"
    and "\<forall>a\<in>set (dying_animals e). is_dead (heap e a)"
    and "start_kill_dead e = Inr e'"
  shows "\<forall>a\<in>set (dying_animals e'). is_dead (heap e' a)"
proof -
  from kill_dead_animals_result [OF assms(1,2)] assms(4)
  have d: "set (dying_animals e') =
        set (dying_animals e) \<union> {a \<in> set (live_animals e). is_dead (heap e a)}"
    and h: "\<And>a. heap e' a =
        (if a \<in> set (live_animals e) \<and> is_dead (heap e a) then killed (heap e a) else heap e a)"
    by (auto simp: start_kill_dead_def)
  show ?thesis
  proof
    fix a assume "a \<in> set (dying_animals e')"
    then have "is_dead (heap e a)" using d assms(3) by auto
    then show "is_dead (heap e' a)" by (simp add: h is_dead_killed)
  qed
qed

lemma reduce_health_keeps [simp]:
  "eats (reduce_health a n) = eats a"
  "velocity (reduce_health a n) = velocity a"
  "max_speed (reduce_health a n) = max_speed a"
  "position (reduce_health a n) = position a"
  "speed (reduce_health a n) = speed a"
  by (simp_all add: reduce_health_def speed_def)

subsection \<open>The elastic collision\<close>

lemma collide_angle:
  assumes "linalg_norm c \<noteq> 0"
  shows "cos (arccos (fst c / linalg_norm c)) = fst c / linalg_norm c"
    and "sin (arccos (fst c / linalg_norm c)) = \<bar>snd c\<bar> / linalg_norm c"
proof -
  let ?n = "linalg_norm c"
  have n: "0 < ?n" using assms linalg_norm_nonneg [of c] by simp
  have n2: "?n\<^sup>2 = (fst c)\<^sup>2 + (snd c)\<^sup>2"
    by (simp add: linalg_norm_def)
  have "\<bar>fst c\<bar> = sqrt ((fst c)\<^sup>2)" by simp
  also have "\<dots> \<le> ?n" unfolding linalg_norm_def by (rule real_sqrt_le_mono) simp
  finally have le: "\<bar>fst c\<bar> \<le> ?n" .
  then have b: "\<bar>fst c / ?n\<bar> \<le> 1" using n by simp
  then show "cos (arccos (fst c / ?n)) = fst c / ?n"
    by (simp add: cos_arccos_abs)
  have "(fst c / ?n)\<^sup>2 + (snd c / ?n)\<^sup>2 = ((fst c)\<^sup>2 + (snd c)\<^sup>2) / ?n\<^sup>2"
    by (simp only: power_divide add_divide_distrib)
  also have "\<dots> = 1" using n by (simp only: n2 [symmetric]) simp
  finally have "1 - (fst c / ?n)\<^sup>2 = (snd c / ?n)\<^sup>2" by simp
  then have "sqrt (1 - (fst c / ?n)\<^sup>2) = \<bar>snd c / ?n\<bar>" by simp
  then show "sin (arccos (fst c / ?n)) = \<bar>snd c\<bar> / ?n"
    using b n by (simp add: sin_arccos_abs)
qed

lemma axis_used_unit:
  assumes "linalg_norm c \<noteq> 0"
  shows "(fst (axis_used c))\<^sup>2 + (snd (axis_used c))\<^sup>2 = 1"
proof -
  let ?n = "linalg_norm c"
  have n2: "?n\<^sup>2 = (fst c)\<^sup>2 + (snd c)\<^sup>2"
    by (simp add: linalg_norm_def)
  have "(fst c / ?n)\<^sup>2 + (\<bar>snd c\<bar> / ?n)\<^sup>2 = ((fst c)\<^sup>2 + (snd c)\<^sup>2) / ?n\<^sup>2"
    by (simp only: power_divide add_divide_distrib power2_abs)
  also have "\<dots> = 1" using assms by (simp only: n2 [symmetric]) simp
  finally show ?thesis by (simp add: axis_used_def)
qed

text \<open>
  \<open>collide\<close> in closed form: along the axis used the two bodies exchange momentum by the
  one-dimensional formula, across it nothing changes.
\<close>

lemma collide_eq:
  assumes c: "linalg_norm c \<noteq> 0" and m: "m1 + m2 \<noteq> 0"
  shows "collide c v1 v2 m1 m2 =
    Inr (vadd (vmul (axis_used c)
                 (((m1 - m2) * dot (axis_used c) v1 + (m2 + m2) * dot (axis_used c) v2) / (m1 + m2)))
              (vmul (perp (axis_used c)) (dot (perp (axis_used c)) v1)),
         vadd (vmul (axis_used c)
                 (((m1 + m1) * dot (axis_used c) v1 + (m2 - m1) * dot (axis_used c) v2) / (m1 + m2)))
              (vmul (perp (axis_used c)) (dot (perp (axis_used c)) v2)))"
proof -
  let ?e = "axis_used c"
  have u: "fst ?e * fst ?e + snd ?e * snd ?e = 1"
    using axis_used_unit [OF c] by (simp add: power2_eq_square)
  have inv: "linalg_inv ((fst ?e, snd ?e), (- snd ?e, fst ?e)) =
      Inr ((fst ?e, - snd ?e), (snd ?e, fst ?e))"
    using u by (simp add: linalg_inv_def Let_def)
  have rot: "((cos (arccos (fst c / linalg_norm c)), sin (arccos (fst c / linalg_norm c))),
              (- sin (arccos (fst c / linalg_norm c)), cos (arccos (fst c / linalg_norm c))))
           = ((fst ?e, snd ?e), (- snd ?e, fst ?e))"
    using collide_angle [OF c] by (simp add: axis_used_def)
  show ?thesis
    unfolding collide_def Let_def rot inv
    using c m
    by (simp add: mat_dot_def dot_def vadd_def vmul_def perp_def algebra_simps)
qed

lemma unit_decompose:
  assumes "(fst e)\<^sup>2 + (snd e)\<^sup>2 = 1"
  shows "vadd (vmul e (dot e v)) (vmul (perp e) (dot (perp e) v)) = v"
proof -
  have u: "fst e * fst e + snd e * snd e = 1" using assms by (simp add: power2_eq_square)
  have "fst e * (fst e * fst v + snd e * snd v) + - snd e * (- snd e * fst v + fst e * snd v)
      = (fst e * fst e + snd e * snd e) * fst v" by (simp add: algebra_simps)
  moreover have "snd e * (fst e * fst v + snd e * snd v) + fst e * (- snd e * fst v + fst e * snd v)
      = (fst e * fst e + snd e * snd e) * snd v" by (simp add: algebra_simps)
  ultimately show ?thesis
    unfolding u by (cases v) (simp add: vadd_def vmul_def dot_def perp_def)
qed

text \<open>Whatever the axis, the total momentum of the two bodies is conserved.\<close>

lemma collide_conserves_momentum:
  assumes c: "linalg_norm c \<noteq> 0" and m: "m1 + m2 \<noteq> 0"
    and r: "collide c v1 v2 m1 m2 = Inr (u1, u2)"
  shows "vadd (vmul u1 m1) (vmul u2 m2) = vadd (vmul v1 m1) (vmul v2 m2)"
proof -
  let ?e = "axis_used c"
  let ?p = "perp ?e"
  let ?a1 = "((m1 - m2) * dot ?e v1 + (m2 + m2) * dot ?e v2) / (m1 + m2)"
  let ?a2 = "((m1 + m1) * dot ?e v1 + (m2 - m1) * dot ?e v2) / (m1 + m2)"
  have u1: "u1 = vadd (vmul ?e ?a1) (vmul ?p (dot ?p v1))"
    and u2: "u2 = vadd (vmul ?e ?a2) (vmul ?p (dot ?p v2))"
    using r unfolding collide_eq [OF c m] by simp_all
  have a: "?a1 * m1 + ?a2 * m2 = dot ?e v1 * m1 + dot ?e v2 * m2"
  proof -
    have num: "((m1 - m2) * dot ?e v1 + (m2 + m2) * dot ?e v2) * m1
             + ((m1 + m1) * dot ?e v1 + (m2 - m1) * dot ?e v2) * m2
             = (m1 + m2) * (dot ?e v1 * m1 + dot ?e v2 * m2)"
      by (simp add: algebra_simps)
    have gen: "x / s * m1 + y / s * m2 = (x * m1 + y * m2) / s" for x y s :: real
      by (simp add: add_divide_distrib)
    have "?a1 * m1 + ?a2 * m2 =
        (((m1 - m2) * dot ?e v1 + (m2 + m2) * dot ?e v2) * m1
         + ((m1 + m1) * dot ?e v1 + (m2 - m1) * dot ?e v2) * m2) / (m1 + m2)"
      by (rule gen)
    also have "\<dots> = (m1 + m2) * (dot ?e v1 * m1 + dot ?e v2 * m2) / (m1 + m2)"
      by (simp only: num)
    also have "\<dots> = dot ?e v1 * m1 + dot ?e v2 * m2"
      using m by simp
    finally show ?thesis .
  qed
  have d1: "vadd (vmul ?e (dot ?e v1)) (vmul ?p (dot ?p v1)) = v1"
    and d2: "vadd (vmul ?e (dot ?e v2)) (vmul ?p (dot ?p v2)) = v2"
    using unit_decompose [OF axis_used_unit [OF c]] by simp_all
  have "vadd (vmul u1 m1) (vmul u2 m2) =
      vadd (vmul ?e (?a1 * m1 + ?a2 * m2)) (vmul ?p (dot ?p v1 * m1 + dot ?p v2 * m2))"
    unfolding u1 u2 by (simp add: vadd_def vmul_def algebra_simps)
  also have "\<dots> = vadd (vmul (vadd (vmul ?e (dot ?e v1)) (vmul ?p (dot ?p v1))) m1)
                       (vmul (vadd (vmul ?e (dot ?e v2)) (vmul ?p (dot ?p v2))) m2)"
    unfolding a by (simp add: vadd_def vmul_def algebra_simps)
  finally show ?thesis unfolding d1 d2 .
qed

text \<open>
  When the axis does not point below the x-axis, the axis used is the axis given, and
  the components across it are kept.
\<close>

lemma collide_keeps_across:
  assumes c: "linalg_norm c \<noteq> 0" and m: "m1 + m2 \<noteq> 0" and up: "0 \<le> snd c"
    and r: "collide c v1 v2 m1 m2 = Inr (u1, u2)"
  shows "component_across c u1 = component_across c v1"
    and "component_across c u2 = component_across c v2"
proof -
  let ?n = "linalg_norm c"
  let ?e = "axis_used c"
  let ?p = "perp ?e"
  have e: "?e = (fst c / ?n, snd c / ?n)" using up by (simp add: axis_used_def)
  have unit: "fst ?e * fst ?e + snd ?e * snd ?e = 1"
    using axis_used_unit [OF c] by (simp add: power2_eq_square)
  have across: "component_across c v = dot v ?p" for v
    using c by (simp add: component_across_def e perp_def dot_def diff_divide_distrib)
  have pp: "dot (vadd (vmul ?e a) (vmul ?p b)) ?p = b" for a b
  proof -
    have "dot (vadd (vmul ?e a) (vmul ?p b)) ?p = (fst ?e * fst ?e + snd ?e * snd ?e) * b"
      by (simp add: dot_def vadd_def vmul_def perp_def algebra_simps)
    then show ?thesis unfolding unit by simp
  qed
  have u: "u1 = vadd (vmul ?e (((m1 - m2) * dot ?e v1 + (m2 + m2) * dot ?e v2) / (m1 + m2)))
                  (vmul ?p (dot ?p v1))"
    "u2 = vadd (vmul ?e (((m1 + m1) * dot ?e v1 + (m2 - m1) * dot ?e v2) / (m1 + m2)))
                  (vmul ?p (dot ?p v2))"
    using r unfolding collide_eq [OF c m] by simp_all
  have sym: "dot ?p v = dot v ?p" for v by (simp add: dot_def mult.commute)
  show "component_across c u1 = component_across c v1"
    unfolding across by (subst u(1)) (simp only: pp sym)
  show "component_across c u2 = component_across c v2"
    unfolding across by (subst u(2)) (simp only: pp sym)
qed

lemma linalg_norm_3_m4: "linalg_norm (3, - 4) = 5"
proof -
  have "sqrt 25 = (5::real)" by (rule real_sqrt_unique) simp_all
  then show ?thesis by (simp add: linalg_norm_def)
qed

text \<open>
  Claim C2 at the axis \<open>(3, -4)\<close>, which points below the x-axis: the first body moves
  with velocity \<open>(1, 0)\<close>, the second is at rest, both have mass 1. \<open>collide\<close> turns the
  x-axis to \<open>(3, 4)\<close>, the mirror image of the axis given, and the first body's velocity
  component across the axis given changes from \<open>4/5\<close> to \<open>28/125\<close>. An elastic collision
  along \<open>(3, -4)\<close> would return \<open>(16/25, 12/25)\<close> and \<open>(9/25, -12/25)\<close>.
\<close>

theorem collide_mirrored_axis:
  "collide (3, - 4) (1, 0) (0, 0) 1 1 = Inr ((16 / 25, - 12 / 25), (9 / 25, 12 / 25))
   \<and> component_across (3, - 4) (1, 0) = 4 / 5
   \<and> component_across (3, - 4) (16 / 25, - 12 / 25) = 28 / 125"
proof -
  have n: "linalg_norm (3, - 4) \<noteq> 0" by (simp add: linalg_norm_3_m4)
  have a: "axis_used (3, - 4) = (3 / 5, 4 / 5)" by (simp add: axis_used_def linalg_norm_3_m4)
  have "collide (3, - 4) (1, 0) (0, 0) 1 1 = Inr ((16 / 25, - 12 / 25), (9 / 25, 12 / 25))"
    unfolding collide_eq [OF n, of 1 1 "(1, 0)" "(0, 0)", simplified] a
    by (simp add: dot_def perp_def vadd_def vmul_def)
  then show ?thesis
    by (simp add: component_across_def perp_def dot_def linalg_norm_3_m4)
qed

subsection \<open>Walls\<close>

lemma velocity_set_total:
  "0 \<le> max_speed a \<Longrightarrow> \<exists>a'. velocity_set a v = Inr a' \<and> velocity a' = v"
  by (simp add: velocity_set_def)

lemma GameBoard_walls_normal:
  "normal (GameBoard_walls sw sh Top) = (0, 1)"
  "normal (GameBoard_walls sw sh Left) = (1, 0)"
  "normal (GameBoard_walls sw sh Bottom) = (0, - 1)"
  "normal (GameBoard_walls sw sh Right) = (- 1, 0)"
  by (simp_all add: Wall_init_def vdiv_def)

lemma axis_used_walls:
  "axis_used (0, 1) = (0, 1)" "axis_used (1, 0) = (1, 0)"
  "axis_used (0, - 1) = (0, 1)" "axis_used (- 1, 0) = (- 1, 0)"
  by (simp_all add: axis_used_def)

lemma collide_wall:
  "collide (normal (GameBoard_walls sw sh w)) v (0, 0) 1 (10 ^ 15) =
     Inr (case w of
            Top \<Rightarrow> (fst v, - wall_restitution * snd v)
          | Bottom \<Rightarrow> (fst v, - wall_restitution * snd v)
          | Left \<Rightarrow> (- wall_restitution * fst v, snd v)
          | Right \<Rightarrow> (- wall_restitution * fst v, snd v),
          case w of
            Top \<Rightarrow> (0, 2 * snd v / (1 + 10 ^ 15))
          | Bottom \<Rightarrow> (0, 2 * snd v / (1 + 10 ^ 15))
          | Left \<Rightarrow> (2 * fst v / (1 + 10 ^ 15), 0)
          | Right \<Rightarrow> (2 * fst v / (1 + 10 ^ 15), 0))"
proof -
  have m: "(1::real) + 10 ^ 15 \<noteq> 0" by simp
  have n: "linalg_norm (normal (GameBoard_walls sw sh w)) \<noteq> 0"
    by (cases w) (simp_all add: GameBoard_walls_normal del: GameBoard_walls.simps)
  show ?thesis
    unfolding collide_eq [OF n m]
    by (cases w)
       (simp_all add: GameBoard_walls_normal axis_used_walls dot_def perp_def vadd_def vmul_def
          wall_restitution_def del: GameBoard_walls.simps)
qed

lemma wall_restitution_bounds: "0 < wall_restitution" "wall_restitution < 1"
  "1 - wall_restitution \<le> 2 / 10 ^ 15"
  by (simp_all add: wall_restitution_def)

text \<open>
  Claim C4: for each of the four walls and an animal with a non-negative speed cap,
  \<open>collide_animal_into_wall\<close> returns; the component of the new velocity along the wall's
  normal is the old one times \<open>- (10^15 - 1) / (10^15 + 1)\<close>, which differs from the negated
  old one by at most \<open>2 / 10^15\<close> of its size, and the component across the normal is the
  old one. The example after the theorem is the first step of the repository's test:
  \<open>[-10, -10]\<close> against the top wall gives \<open>[-10, 10]\<close> up to \<open>10^-13\<close>.
\<close>

theorem collide_animal_into_wall_reflects:
  assumes "0 \<le> max_speed animal"
  shows "\<exists>a'. collide_animal_into_wall animal (GameBoard_walls sw sh w) = Inr a'
     \<and> dot (velocity a') (normal (GameBoard_walls sw sh w)) =
         - wall_restitution * dot (velocity animal) (normal (GameBoard_walls sw sh w))
     \<and> dot (velocity a') (perp (normal (GameBoard_walls sw sh w))) =
         dot (velocity animal) (perp (normal (GameBoard_walls sw sh w)))
     \<and> \<bar>dot (velocity a') (normal (GameBoard_walls sw sh w))
          + dot (velocity animal) (normal (GameBoard_walls sw sh w))\<bar>
         \<le> 2 / 10 ^ 15 * \<bar>dot (velocity animal) (normal (GameBoard_walls sw sh w))\<bar>"
proof -
  let ?W = "GameBoard_walls sw sh w"
  let ?d = "Wall_distance_to ?W animal"
  let ?a = "if ?d < 0 then position_set animal
              (snap_to_grid_in_direction
                 (vadd (position animal) (vmul (normal ?W) (of_int \<lceil>\<bar>?d\<bar>\<rceil>))) (normal ?W))
            else animal"
  let ?u = "case w of
            Top \<Rightarrow> (fst (velocity animal), - wall_restitution * snd (velocity animal))
          | Bottom \<Rightarrow> (fst (velocity animal), - wall_restitution * snd (velocity animal))
          | Left \<Rightarrow> (- wall_restitution * fst (velocity animal), snd (velocity animal))
          | Right \<Rightarrow> (- wall_restitution * fst (velocity animal), snd (velocity animal))"
  have va: "velocity ?a = velocity animal" and ma: "max_speed ?a = max_speed animal"
    by (simp_all add: position_set_def)
  obtain u2 where c: "collide (normal ?W) (velocity ?a) (0, 0) 1 (10 ^ 15) = Inr (?u, u2)"
    unfolding va collide_wall [of sw sh w "velocity animal"] by blast
  obtain a' where a': "velocity_set ?a ?u = Inr a'" "velocity a' = ?u"
    using velocity_set_total [of ?a ?u] assms ma by auto
  have run: "collide_animal_into_wall animal ?W = Inr a'"
    unfolding collide_animal_into_wall_def Let_def c using a'(1) by simp
  have along: "dot ?u (normal ?W) = - wall_restitution * dot (velocity animal) (normal ?W)"
    by (cases w) (simp_all add: GameBoard_walls_normal dot_def del: GameBoard_walls.simps)
  have across: "dot ?u (perp (normal ?W)) = dot (velocity animal) (perp (normal ?W))"
    by (cases w) (simp_all add: GameBoard_walls_normal dot_def perp_def del: GameBoard_walls.simps)
  have "\<bar>dot ?u (normal ?W) + dot (velocity animal) (normal ?W)\<bar>
      = (1 - wall_restitution) * \<bar>dot (velocity animal) (normal ?W)\<bar>"
  proof -
    have "dot ?u (normal ?W) + dot (velocity animal) (normal ?W)
        = (1 - wall_restitution) * dot (velocity animal) (normal ?W)"
      unfolding along by (simp add: algebra_simps)
    then show ?thesis
      using wall_restitution_bounds(2) by (simp add: abs_mult)
  qed
  also have "\<dots> \<le> 2 / 10 ^ 15 * \<bar>dot (velocity animal) (normal ?W)\<bar>"
    by (rule mult_right_mono [OF wall_restitution_bounds(3)]) simp
  finally have tol: "\<bar>dot ?u (normal ?W) + dot (velocity animal) (normal ?W)\<bar>
      \<le> 2 / 10 ^ 15 * \<bar>dot (velocity animal) (normal ?W)\<bar>" .
  show ?thesis
    using run along across tol unfolding a'(2) [symmetric] by blast
qed

theorem collide_animal_into_wall_reflects_witness:
  "0 \<le> max_speed diver \<and> velocity diver = (- 10, - 10)
   \<and> velocity_of (collide_animal_into_wall diver (GameBoard_walls 600 600 Top))
       = Inr (- 10, 10 * wall_restitution)
   \<and> \<bar>10 * wall_restitution - 10\<bar> \<le> 1 / 10 ^ 13"
proof -
  have m: "0 \<le> max_speed diver" and v: "velocity diver = (- 10, - 10)"
    by (simp_all add: diver_def put_def position_set_def Animal_init_def)
  from collide_animal_into_wall_reflects [OF m, of 600 600 Top] obtain a' where a':
    "collide_animal_into_wall diver (GameBoard_walls 600 600 Top) = Inr a'
     \<and> dot (velocity a') (normal (GameBoard_walls 600 600 Top)) =
         - wall_restitution * dot (velocity diver) (normal (GameBoard_walls 600 600 Top))
     \<and> dot (velocity a') (perp (normal (GameBoard_walls 600 600 Top))) =
         dot (velocity diver) (perp (normal (GameBoard_walls 600 600 Top)))
     \<and> \<bar>dot (velocity a') (normal (GameBoard_walls 600 600 Top))
          + dot (velocity diver) (normal (GameBoard_walls 600 600 Top))\<bar>
         \<le> 2 / 10 ^ 15 * \<bar>dot (velocity diver) (normal (GameBoard_walls 600 600 Top))\<bar>" ..
  then have "snd (velocity a') = 10 * wall_restitution" "fst (velocity a') = - 10"
    unfolding GameBoard_walls_normal v by (simp_all add: dot_def perp_def)
  then have "velocity a' = (- 10, 10 * wall_restitution)"
    by (cases "velocity a'") simp
  moreover have "\<bar>10 * wall_restitution - 10\<bar> \<le> 1 / 10 ^ 13"
    by (simp add: wall_restitution_def)
  ultimately show ?thesis
    using a' m v by (simp add: velocity_of_def)
qed

subsection \<open>Dying with the velocity of the moment\<close>

lemma collide_head_on:
  "collide (1, 0) (1, 0) (- 10, 0) 1 2 = Inr ((- 41 / 3, 0), (- 8 / 3, 0))"
proof -
  have n: "linalg_norm (1, 0) \<noteq> 0" by simp
  have a: "axis_used (1, 0) = (1, 0)" by (simp add: axis_used_def)
  show ?thesis
    unfolding collide_eq [OF n, of 1 2 "(1, 0)" "(- 10, 0)", simplified] a
    by (simp add: dot_def perp_def vadd_def vmul_def)
qed

lemma chase_facts:
  "heap chase_engine 0 = hunter" "heap chase_engine 2 = prey"
  "position hunter = (0, 0)" "position prey = (10, 0)"
  "velocity hunter = (1, 0)" "velocity prey = (- 10, 0)"
  "radius hunter = 5" "radius prey = 5" "mass hunter = 1" "mass prey = 2"
  "max_speed hunter = 50" "max_speed prey = 50"
  "eats hunter = {2}" "eats prey = {}"
  "damage_infliction_magnitude hunter = 1"
  "health hunter = 10" "health prey = 1"
  by (simp_all add: chase_engine_def hunter_def prey_def put_def position_set_def Animal_init_def
      health_def)

lemma chase_collide_animals:
  "collide_animals (heap chase_engine) 0 2 =
     Inr ((heap chase_engine)
            (0 := hunter\<lparr>slow_down_force := (0, 0), velocity := (- 41 / 3, 0)\<rparr>,
             2 := prey\<lparr>slow_down_force := (0, 0), velocity := (- 8 / 3, 0)\<rparr>))"
  by (simp add: collide_animals_def Let_def distance_to_def vector_to_def vsub_def chase_facts
      normalized_vector_to_def vdiv_def collide_head_on velocity_set_def speed_def)

lemma chase_handle_collisions:
  "handle_collisions chase_engine [chase_collision] =
     Inr (chase_engine
            \<lparr>heap := (heap chase_engine)
               (0 := hunter\<lparr>slow_down_force := (0, 0), velocity := (- 41 / 3, 0)\<rparr>,
                2 := reduce_health (prey\<lparr>slow_down_force := (0, 0), velocity := (- 8 / 3, 0)\<rparr>) 1),
             play_collision_sound := True\<rparr>)"
  by (simp add: chase_collision_def chase_collide_animals injure_animals_if_prey_def Let_def
      wants_to_eat_def chase_facts inflict_damage_def animals_were_injured_def
      delayed_collision_sound_def)

text \<open>
  Claim C6, as stated, fails: the transition does not turn the velocity away from the
  collision, it only rescales it. The prey runs left into the hunter, which stands to its
  left (the vector from prey to hunter is \<open>(-10, 0)\<close>); after the collision the heavier
  prey still moves left, with velocity \<open>(-8/3, 0)\<close>, and has lost its last point of
  health; the engine moves it to the dying group with velocity \<open>(-200, 0)\<close>, towards the
  place of the collision.
\<close>

theorem start_kill_dead_counterexample:
  "vector_to prey hunter = (- 10, 0)
   \<and> velocity_after (handle_collisions chase_engine [chase_collision]) 2 = Inr (- 8 / 3, 0)
   \<and> velocity_after (and_then (handle_collisions chase_engine [chase_collision]) start_kill_dead) 2
       = Inr (- 200, 0)
   \<and> live_after (and_then (handle_collisions chase_engine [chase_collision]) start_kill_dead)
       = Inr [0]"
proof -
  define e1 where "e1 = chase_engine
            \<lparr>heap := (heap chase_engine)
               (0 := hunter\<lparr>slow_down_force := (0, 0), velocity := (- 41 / 3, 0)\<rparr>,
                2 := reduce_health (prey\<lparr>slow_down_force := (0, 0), velocity := (- 8 / 3, 0)\<rparr>) 1),
             play_collision_sound := True\<rparr>"
  have hc: "handle_collisions chase_engine [chase_collision] = Inr e1"
    unfolding e1_def by (rule chase_handle_collisions)
  have l: "live_animals e1 = [0, 2]" by (simp add: e1_def chase_engine_def)
  have h0: "\<not> is_dead (heap e1 0)"
    using chase_facts(16)
    by (simp add: e1_def is_dead_def HealthBar_is_dead_def health_def)
  have h1: "is_dead (heap e1 2)"
    using chase_facts(17)
    by (simp add: e1_def is_dead_def HealthBar_is_dead_def health_def reduce_health_def
        HealthBar_reduce_health_def)
  have v1: "velocity (heap e1 2) = (- 8 / 3, 0)"
    by (simp add: e1_def)
  have s1: "speed (heap e1 2) = 8 / 3"
    by (simp add: speed_def v1)
  have d: "distinct [0, 2 :: nat]" by simp
  have pre: "\<forall>a\<in>set [0, 2]. 0 \<le> max_speed (heap e1 a)"
    by (simp add: e1_def chase_facts)
  from kill_dead_animals_result [OF d pre] obtain e' where e':
    "kill_dead_animals e1 [0, 2] = Inr e'
     \<and> live_animals e' = group_remove (live_animals e1) (filter (\<lambda>a. is_dead (heap e1 a)) [0, 2])
     \<and> set (dying_animals e') = set (dying_animals e1) \<union> {a \<in> set [0, 2]. is_dead (heap e1 a)}
     \<and> nan_velocity e' =
         nan_velocity e1 \<union> {a \<in> set [0, 2]. is_dead (heap e1 a) \<and> speed (heap e1 a) = 0}
     \<and> (\<forall>a. heap e' a =
           (if a \<in> set [0, 2] \<and> is_dead (heap e1 a) then killed (heap e1 a) else heap e1 a))" ..
  have run: "start_kill_dead e1 = Inr e'"
    using e' by (simp add: start_kill_dead_def l)
  have "heap e' 2 = killed (heap e1 2)"
    using e' h1 by (simp)
  then have ve: "velocity (heap e' 2) = (- 200, 0)"
    by (simp add: killed_def v1 s1 vmul_def vdiv_def)
  have le: "live_animals e' = [0]"
    using e' h0 h1 by (simp add: l group_remove_def)
  have "vector_to prey hunter = (- 10, 0)"
    by (simp add: vector_to_def vsub_def chase_facts)
  then show ?thesis
    unfolding hc and_then_def sum.case run
    using ve le v1 by (simp add: velocity_after_def live_after_def)
qed

text \<open>
  Claim C6, amended: the pass over the live animals (whose speed caps are not negative)
  moves to the dying group exactly those whose health is \<open>\<le> 0\<close> at that moment and leaves
  the others live and unchanged. An animal moved at a speed other than zero keeps the
  direction of its velocity, which becomes \<open>velocity / speed * 200\<close>, of norm 200; nothing
  refers to a collision. An animal moved at speed zero is moved all the same, with a
  velocity of nan.
\<close>

theorem start_kill_dead_transition:
  assumes "distinct (live_animals e)"
    and "\<forall>a\<in>set (live_animals e). 0 \<le> max_speed (heap e a)"
  shows "\<exists>e'. start_kill_dead e = Inr e'
     \<and> live_animals e' = filter (\<lambda>a. \<not> is_dead (heap e a)) (live_animals e)
     \<and> set (dying_animals e') =
         set (dying_animals e) \<union> {a \<in> set (live_animals e). is_dead (heap e a)}
     \<and> nan_velocity e' =
         nan_velocity e \<union> {a \<in> set (live_animals e). is_dead (heap e a) \<and> speed (heap e a) = 0}
     \<and> (\<forall>a\<in>set (live_animals e).
          if is_dead (heap e a)
          then a \<in> set (dying_animals e') \<and> a \<notin> set (live_animals e')
               \<and> (if speed (heap e a) = 0 then a \<in> nan_velocity e'
                   else velocity (heap e' a) =
                          vmul (vdiv (velocity (heap e a)) (speed (heap e a))) 200
                        \<and> speed (heap e' a) = 200)
          else a \<in> set (live_animals e') \<and> heap e' a = heap e a)"
proof -
  from kill_dead_animals_result [OF assms] obtain e' where e':
    "kill_dead_animals e (live_animals e) = Inr e'
     \<and> live_animals e' =
         group_remove (live_animals e) (filter (\<lambda>a. is_dead (heap e a)) (live_animals e))
     \<and> set (dying_animals e') =
         set (dying_animals e) \<union> {a \<in> set (live_animals e). is_dead (heap e a)}
     \<and> nan_velocity e' =
         nan_velocity e \<union> {a \<in> set (live_animals e). is_dead (heap e a) \<and> speed (heap e a) = 0}
     \<and> (\<forall>a. heap e' a =
           (if a \<in> set (live_animals e) \<and> is_dead (heap e a) then killed (heap e a)
            else heap e a))" ..
  have live: "group_remove (live_animals e) (filter (\<lambda>a. is_dead (heap e a)) (live_animals e)) =
        filter (\<lambda>a. \<not> is_dead (heap e a)) (live_animals e)"
    unfolding group_remove_def by (rule filter_cong) auto
  have each: "if is_dead (heap e a)
          then a \<in> set (dying_animals e') \<and> a \<notin> set (live_animals e')
               \<and> (if speed (heap e a) = 0 then a \<in> nan_velocity e'
                   else velocity (heap e' a) =
                          vmul (vdiv (velocity (heap e a)) (speed (heap e a))) 200
                        \<and> speed (heap e' a) = 200)
          else a \<in> set (live_animals e') \<and> heap e' a = heap e a"
    if "a \<in> set (live_animals e)" for a
    using that e' by (simp add: live velocity_killed speed_killed)
  have run: "start_kill_dead e = Inr e'"
    and l: "live_animals e' = filter (\<lambda>a. \<not> is_dead (heap e a)) (live_animals e)"
    and d: "set (dying_animals e') =
         set (dying_animals e) \<union> {a \<in> set (live_animals e). is_dead (heap e a)}"
    and n: "nan_velocity e' =
         nan_velocity e \<union> {a \<in> set (live_animals e). is_dead (heap e a) \<and> speed (heap e a) = 0}"
    using e' by (simp_all add: start_kill_dead_def live)
  from run l d n each show ?thesis by blast
qed

theorem start_kill_dead_transition_witness:
  "distinct (live_animals runner_engine)
   \<and> is_dead (heap runner_engine 0) \<and> speed (heap runner_engine 0) = 5
   \<and> \<not> is_dead (heap runner_engine 3)
   \<and> is_dead (heap runner_engine 2) \<and> speed (heap runner_engine 2) = 0
   \<and> live_after (start_kill_dead runner_engine) = Inr [3]
   \<and> velocity_after (start_kill_dead runner_engine) 0 = Inr (120, 160)
   \<and> nan_velocity_after (start_kill_dead runner_engine) = Inr {2}"
proof -
  have l: "live_animals runner_engine = [0, 3, 2]" "nan_velocity runner_engine = {}"
    by (simp_all add: runner_engine_def)
  have d: "distinct (live_animals runner_engine)" by (simp add: l)
  have h0: "is_dead (heap runner_engine 0)" "velocity (heap runner_engine 0) = (3, 4)"
    by (simp_all add: runner_engine_def is_dead_def HealthBar_is_dead_def Animal_init_def)
  have s0: "speed (heap runner_engine 0) = 5"
    by (simp add: speed_def h0 linalg_norm_3_4)
  have h3: "\<not> is_dead (heap runner_engine 3)"
    by (simp add: runner_engine_def is_dead_def HealthBar_is_dead_def weak_animal_def
        Animal_init_def)
  have h2: "is_dead (heap runner_engine 2)" "speed (heap runner_engine 2) = 0"
    by (simp_all add: runner_engine_def is_dead_def HealthBar_is_dead_def Animal_init_def
        speed_def)
  have pre: "\<forall>a\<in>set (live_animals runner_engine). 0 \<le> max_speed (heap runner_engine a)"
    by (simp add: l runner_engine_def weak_animal_def Animal_init_def)
  from start_kill_dead_transition [OF d pre] obtain e' where e':
    "start_kill_dead runner_engine = Inr e'
     \<and> live_animals e' = filter (\<lambda>a. \<not> is_dead (heap runner_engine a)) (live_animals runner_engine)
     \<and> set (dying_animals e') =
         set (dying_animals runner_engine)
         \<union> {a \<in> set (live_animals runner_engine). is_dead (heap runner_engine a)}
     \<and> nan_velocity e' =
         nan_velocity runner_engine
         \<union> {a \<in> set (live_animals runner_engine).
              is_dead (heap runner_engine a) \<and> speed (heap runner_engine a) = 0}
     \<and> (\<forall>a\<in>set (live_animals runner_engine).
          if is_dead (heap runner_engine a)
          then a \<in> set (dying_animals e') \<and> a \<notin> set (live_animals e')
               \<and> (if speed (heap runner_engine a) = 0 then a \<in> nan_velocity e'
                   else velocity (heap e' a) =
                          vmul (vdiv (velocity (heap runner_engine a))
                                  (speed (heap runner_engine a))) 200
                        \<and> speed (heap e' a) = 200)
          else a \<in> set (live_animals e') \<and> heap e' a = heap runner_engine a)" ..
  then have "live_animals e' = [3]" "velocity (heap e' 0) = (120, 160)"
    using h0 h3 h2 s0 by (simp_all add: l vmul_def vdiv_def)
  moreover have "nan_velocity e' = {2}"
    using e' h0 h3 h2 s0 by (auto simp: l)
  ultimately show ?thesis
    using e' d h0 s0 h3 h2
    by (simp add: live_after_def velocity_after_def nan_velocity_after_def)
qed

end
